theory Spec2Isabelle
  imports Complex_Main "HOL-Library.Word"
begin

unbundle bit_operations_syntax

section \<open>Correlation token parsing\<close>

text \<open>
  A Go \<open>error\<close> value is modelled by its message; \<open>nil\<close> is \<open>None\<close> of
  \<open>error option\<close>.
\<close>

datatype error = Error string

text \<open>
  \<open>strings.Index(s, sep)\<close> and \<open>strings.Split(s, sep)\<close> of the Go standard library,
  for a separator of one byte, which is how \<open>ExtractIdsFromRequest\<close> and
  \<open>InterceptRequestWithContext\<close> call them (\<open>"/"\<close>). \<open>Index\<close> is the position of the
  first separator (\<open>None\<close> for Go's \<open>-1\<close>); \<open>Split\<close> runs the loop of \<open>genSplit\<close>:
  cut the segment before the first separator, go on behind it, and end with what is left.
\<close>

fun Index :: "string \<Rightarrow> char \<Rightarrow> nat option" where
  "Index [] sep = None"
| "Index (c # cs) sep =
     (if c = sep then Some 0
      else (case Index cs sep of None \<Rightarrow> None | Some m \<Rightarrow> Some (Suc m)))"

lemma Index_less: "Index s sep = Some m \<Longrightarrow> m < length s"
  by (induction s arbitrary: m) (auto split: if_splits option.splits)

function Split :: "string \<Rightarrow> char \<Rightarrow> string list" where
  "Split s sep =
     (case Index s sep of
        None \<Rightarrow> [s]
      | Some m \<Rightarrow> take m s # Split (drop (Suc m) s) sep)"
  by pat_completeness auto
termination
  by (relation "measure (\<lambda>(s, sep). length s)") (auto dest: Index_less)

declare Split.simps [simp del]

text \<open>
  \<open>ExtractIdsFromRequest\<close>: the Go function returns the triple
  \<open>(sessionSecureId, requestId, err)\<close>.
\<close>

definition ExtractIdsFromRequest :: "string \<Rightarrow> string \<times> string \<times> error option" where
  "ExtractIdsFromRequest requestDetails =
     (let sessionSecureId = '''';
          requestId = '''';
          ids = Split requestDetails (CHR ''/'')
      in if length ids \<ge> 2
         then (ids ! 0, ids ! 1, None)
         else (sessionSecureId, requestId,
               Some (Error ''request does not contain tracer IDs'')))"

subsection \<open>What \<open>Split\<close> computes\<close>

lemma Index_None_iff: "Index s sep = None \<longleftrightarrow> sep \<notin> set s"
  by (induction s) (auto split: option.splits)

lemma Index_Some_takeWhile:
  "Index s sep = Some m \<Longrightarrow>
     take m s = takeWhile (\<lambda>c. c \<noteq> sep) s \<and>
     drop (Suc m) s = tl (dropWhile (\<lambda>c. c \<noteq> sep) s)"
  by (induction s arbitrary: m) (auto split: if_splits option.splits)

lemma Index_Some_nth: "Index s sep = Some m \<Longrightarrow> s ! m = sep"
  by (induction s arbitrary: m) (auto split: if_splits option.splits)

lemma Split_no_sep: "sep \<notin> set s \<Longrightarrow> Split s sep = [s]"
proof -
  assume "sep \<notin> set s"
  then have n: "Index s sep = None" by (simp add: Index_None_iff)
  show ?thesis by (subst Split.simps) (simp add: n)
qed

lemma Split_sep:
  "sep \<in> set s \<Longrightarrow>
     Split s sep =
       takeWhile (\<lambda>c. c \<noteq> sep) s # Split (tl (dropWhile (\<lambda>c. c \<noteq> sep) s)) sep"
proof -
  assume "sep \<in> set s"
  then obtain m where m: "Index s sep = Some m"
    using Index_None_iff [of s sep] by (cases "Index s sep") auto
  show ?thesis
    by (subst Split.simps) (simp add: m Index_Some_takeWhile [OF m])
qed

lemma Split_not_Nil: "Split s sep \<noteq> []"
  by (subst Split.simps) (simp split: option.splits)

lemma Split_hd: "Split s sep ! 0 = takeWhile (\<lambda>c. c \<noteq> sep) s"
proof (cases "sep \<in> set s")
  case True
  then show ?thesis by (simp add: Split_sep)
next
  case False
  then have t: "takeWhile (\<lambda>c. c \<noteq> sep) s = s"
    by (auto simp: takeWhile_eq_all_conv)
  have "Split s sep ! 0 = s"
    by (simp add: Split_no_sep [OF False])
  then show ?thesis by (simp only: t)
qed

lemma Split_second:
  "sep \<in> set s \<Longrightarrow>
     Split s sep ! 1 =
       takeWhile (\<lambda>c. c \<noteq> sep) (tl (dropWhile (\<lambda>c. c \<noteq> sep) s))"
  by (simp add: Split_sep Split_hd)

lemma Split_length_ge2: "2 \<le> length (Split s sep) \<longleftrightarrow> sep \<in> set s"
proof (cases "sep \<in> set s")
  case True
  then have "length (Split s sep) =
      Suc (length (Split (tl (dropWhile (\<lambda>c. c \<noteq> sep) s)) sep))"
    by (simp add: Split_sep)
  moreover have "0 < length (Split (tl (dropWhile (\<lambda>c. c \<noteq> sep) s)) sep)"
    using Split_not_Nil [of "tl (dropWhile (\<lambda>c. c \<noteq> sep) s)" sep] by simp
  ultimately show ?thesis using True by (simp add: Suc_le_eq)
next
  case False
  then show ?thesis by (simp add: Split_no_sep)
qed

lemma Split_length: "length (Split s sep) = Suc (count_list s sep)"
proof (induction s sep rule: Split.induct)
  case (1 s sep)
  show ?case
  proof (cases "Index s sep")
    case None
    then have "sep \<notin> set s" by (simp add: Index_None_iff)
    then show ?thesis by (simp add: Split_no_sep)
  next
    case (Some m)
    have less: "m < length s" by (rule Index_less [OF Some])
    have tk: "take m s = takeWhile (\<lambda>c. c \<noteq> sep) s"
      using Index_Some_takeWhile [OF Some] by simp
    have "sep \<notin> set (takeWhile (\<lambda>c. c \<noteq> sep) s)"
      by (auto dest: set_takeWhileD)
    then have c0: "count_list (take m s) sep = 0" by (simp add: tk)
    have s: "s = take m s @ sep # drop (Suc m) s"
      using id_take_nth_drop [OF less] Index_Some_nth [OF Some] by simp
    have "count_list s sep = Suc (count_list (drop (Suc m) s) sep)"
      by (subst s) (simp add: c0)
    moreover have "length (Split s sep) = Suc (length (Split (drop (Suc m) s) sep))"
      by (subst Split.simps) (simp add: Some)
    ultimately show ?thesis using "1.IH" [OF Some] by simp
  qed
qed

text \<open>Joining the segments with the separator gives the input back.\<close>

fun Join :: "string list \<Rightarrow> char \<Rightarrow> string" where
  "Join [] sep = []"
| "Join [x] sep = x"
| "Join (x # y # ys) sep = x @ sep # Join (y # ys) sep"

lemma Join_Split: "Join (Split s sep) sep = s"
proof (induction s sep rule: Split.induct)
  case (1 s sep)
  show ?case
  proof (cases "Index s sep")
    case None
    then show ?thesis by (subst Split.simps) simp
  next
    case (Some m)
    have less: "m < length s" by (rule Index_less [OF Some])
    have s: "take m s @ sep # drop (Suc m) s = s"
      using id_take_nth_drop [OF less] Index_Some_nth [OF Some] by simp
    obtain y ys where r: "Split (drop (Suc m) s) sep = y # ys"
      using Split_not_Nil [of "drop (Suc m) s" sep]
      by (cases "Split (drop (Suc m) s) sep") auto
    have "Join (Split s sep) sep = take m s @ sep # Join (Split (drop (Suc m) s) sep) sep"
      by (subst Split.simps) (simp add: Some r)
    then show ?thesis using "1.IH" [OF Some] s by simp
  qed
qed

section \<open>Claims about correlation token parsing\<close>

text \<open>
  C7. For every input string, \<open>ExtractIdsFromRequest\<close> splits it on \<open>/\<close>. When the split
  has at least two segments (in general the split has one segment more than the input has
  separators, and joining the segments with \<open>/\<close> gives the input back), the result is
  segment 0 as the session id and segment 1 as the request id, unchanged, without error,
  whatever further segments follow: segment 0 is the input up to its first \<open>/\<close>, segment 1
  what stands between the first \<open>/\<close> and the next one (or the end). With fewer than two
  segments, which includes the empty input, the result is the error.
\<close>

theorem ExtractIdsFromRequest_parse:
  "(2 \<le> length (Split rd (CHR ''/'')) \<longrightarrow>
      ExtractIdsFromRequest rd = (Split rd (CHR ''/'') ! 0, Split rd (CHR ''/'') ! 1, None) \<and>
      Split rd (CHR ''/'') ! 0 = takeWhile (\<lambda>c. c \<noteq> CHR ''/'') rd \<and>
      Split rd (CHR ''/'') ! 1 =
        takeWhile (\<lambda>c. c \<noteq> CHR ''/'') (tl (dropWhile (\<lambda>c. c \<noteq> CHR ''/'') rd))) \<and>
   (length (Split rd (CHR ''/'')) < 2 \<longrightarrow>
      ExtractIdsFromRequest rd =
        ([], [], Some (Error ''request does not contain tracer IDs''))) \<and>
   length (Split rd (CHR ''/'')) = Suc (count_list rd (CHR ''/'')) \<and>
   Join (Split rd (CHR ''/'')) (CHR ''/'') = rd \<and>
   length (Split [] (CHR ''/'')) < 2"
proof -
  have a: "2 \<le> length (Split rd (CHR ''/'')) \<Longrightarrow>
      ExtractIdsFromRequest rd = (Split rd (CHR ''/'') ! 0, Split rd (CHR ''/'') ! 1, None)"
    by (simp add: ExtractIdsFromRequest_def Let_def)
  have b: "2 \<le> length (Split rd (CHR ''/'')) \<Longrightarrow>
      Split rd (CHR ''/'') ! 1 =
        takeWhile (\<lambda>c. c \<noteq> CHR ''/'') (tl (dropWhile (\<lambda>c. c \<noteq> CHR ''/'') rd))"
    using Split_second [of "CHR ''/''" rd] by (simp only: Split_length_ge2)
  have c: "length (Split rd (CHR ''/'')) < 2 \<Longrightarrow>
      ExtractIdsFromRequest rd =
        ([], [], Some (Error ''request does not contain tracer IDs''))"
    by (simp add: ExtractIdsFromRequest_def Let_def)
  have d: "length (Split [] (CHR ''/'')) < 2"
    by (simp add: Split_length)
  show ?thesis
    using a b c d Split_hd [of rd "CHR ''/''"] Split_length [of rd "CHR ''/''"]
      Join_Split [of rd "CHR ''/''"]
    by blast
qed

theorem ExtractIdsFromRequest_parse_witness:
  "ExtractIdsFromRequest ''abc/def/ghi'' = (''abc'', ''def'', None) \<and>
   length (Split ''abc/def/ghi'' (CHR ''/'')) = 3"
proof -
  have l: "length (Split ''abc/def/ghi'' (CHR ''/'')) = 3"
    by (simp add: Split_length)
  then have "2 \<le> length (Split ''abc/def/ghi'' (CHR ''/''))" by simp
  with ExtractIdsFromRequest_parse [of "''abc/def/ghi''"] l show ?thesis by simp
qed

text \<open>
  C10. Whenever \<open>ExtractIdsFromRequest\<close> returns an error, both identifiers it returns are
  the empty string (and the split had fewer than two segments): no partial result comes
  with an error.
\<close>

theorem ExtractIdsFromRequest_error_empty:
  "snd (snd (ExtractIdsFromRequest rd)) \<noteq> None \<Longrightarrow>
     fst (ExtractIdsFromRequest rd) = [] \<and> fst (snd (ExtractIdsFromRequest rd)) = [] \<and>
     length (Split rd (CHR ''/'')) < 2"
  by (simp add: ExtractIdsFromRequest_def Let_def split: if_splits)

theorem ExtractIdsFromRequest_error_empty_witness:
  "snd (snd (ExtractIdsFromRequest ''qwerty'')) \<noteq> None \<and>
   fst (ExtractIdsFromRequest ''qwerty'') = [] \<and>
   fst (snd (ExtractIdsFromRequest ''qwerty'')) = []"
proof -
  have e: "snd (snd (ExtractIdsFromRequest ''qwerty'')) \<noteq> None"
    by (simp add: ExtractIdsFromRequest_def Split_length)
  from ExtractIdsFromRequest_error_empty [OF e] e show ?thesis by simp
qed

section \<open>Data model\<close>

type_synonym byte = "8 word"
type_synonym uint64 = "64 word"

text \<open>
  \<open>binary.BigEndian.Uint64\<close> of the Go standard library, on a slice of at least eight
  bytes (a slice of a \<open>[16]byte\<close> trace identifier always is).
\<close>

definition BigEndian_Uint64 :: "byte list \<Rightarrow> uint64" where
  "BigEndian_Uint64 b =
     (((((((ucast (b ! 7) OR push_bit 8 (ucast (b ! 6))) OR push_bit 16 (ucast (b ! 5))) OR
     push_bit 24 (ucast (b ! 4))) OR push_bit 32 (ucast (b ! 3))) OR
     push_bit 40 (ucast (b ! 2))) OR push_bit 48 (ucast (b ! 1))) OR
     push_bit 56 (ucast (b ! 0)))"

text \<open>The number a byte sequence denotes when read big-endian, as its hex form shows it.\<close>

definition BigEndian_value :: "byte list \<Rightarrow> int" where
  "BigEndian_value bs = foldl (\<lambda>a b. a * 256 + uint b) 0 bs"

text \<open>
  \<open>trace.SpanKind\<close> of the tracing library is an integer type with six named values;
  the sampler may be handed any value of it.
\<close>

type_synonym SpanKind = int
text \<open>
  A finite \<open>float64\<close> is modelled by the rational number it denotes. The only arithmetic
  the sampler does on one is \<open>value * (1 << 63)\<close>, which changes the exponent alone and is
  therefore exact.
\<close>

type_synonym float64 = rat

definition SpanKindUnspecified :: SpanKind where "SpanKindUnspecified = 0"
definition SpanKindInternal :: SpanKind where "SpanKindInternal = 1"
definition SpanKindServer :: SpanKind where "SpanKindServer = 2"
definition SpanKindClient :: SpanKind where "SpanKindClient = 3"
definition SpanKindProducer :: SpanKind where "SpanKindProducer = 4"
definition SpanKindConsumer :: SpanKind where "SpanKindConsumer = 5"

text \<open>
  A \<open>context.Context\<close> carries values under keys that are compared with their dynamic
  type: the \<open>string\<close> \<open>"k"\<close> and the \<open>contextKey\<close> \<open>"k"\<close> are different keys. A stored
  value is any Go value: a string, \<open>nil\<close>, or something else. The span context that the
  tracing library keeps in the context is the field \<open>ctx_SpanContext\<close>.
\<close>

datatype ctx_key = StringKey string | ContextKey string

datatype any = StringVal string | NilVal | OtherVal

record SpanContext =
  sc_TraceID :: "byte list"
  sc_SpanID :: "byte list"
  sc_TraceState :: string

record Context =
  ctx_Value :: "ctx_key \<rightharpoonup> any"
  ctx_SpanContext :: SpanContext

definition SpanContextFromContext :: "Context \<Rightarrow> SpanContext" where
  "SpanContextFromContext ctx = ctx_SpanContext ctx"

record config =
  otelEndpoint :: string
  projectID :: string
  resourceAttributes :: "(string \<times> string) list"
  metricSamplingRate :: float64
  samplingRateMap :: "SpanKind \<rightharpoonup> float64"

text \<open>Reading a Go map at a key it does not hold gives the zero value.\<close>

definition index :: "('k \<rightharpoonup> 'v::zero) \<Rightarrow> 'k \<Rightarrow> 'v" where
  "index m k = (case m k of Some v \<Rightarrow> v | None \<Rightarrow> 0)"

text \<open>
  The conversion \<open>uint64(f)\<close> discards the fraction (truncation towards zero). Where the
  truncated value is no \<open>uint64\<close> the language leaves the result to the implementation:
  \<open>impl\<close> stands for what the platform does there.
\<close>

definition float_truncate :: "float64 \<Rightarrow> int" where
  "float_truncate f = (if 0 \<le> f then \<lfloor>f\<rfloor> else \<lceil>f\<rceil>)"

definition uint64_of_float64 :: "(float64 \<Rightarrow> uint64) \<Rightarrow> float64 \<Rightarrow> uint64" where
  "uint64_of_float64 impl f =
     (if - 1 < f \<and> f < 2 ^ 64 then word_of_int (float_truncate f) else impl f)"

text \<open>
  The sampler. \<open>ShouldSample\<close> reads bytes 8 to 15 of the trace identifier as a big-endian
  \<open>uint64\<close>, shifts it right by one, and compares it with the bound of the span kind, or of
  \<open>SpanKindUnspecified\<close> when the kind has no bound. \<open>getSampler\<close> turns every entry of
  the configured rates into a bound; its description string is left out.
\<close>

datatype SamplingDecision = Drop | RecordOnly | RecordAndSample

record SamplingParameters =
  sp_ParentContext :: Context
  sp_TraceID :: "byte list"
  sp_Name :: string
  sp_Kind :: SpanKind
  sp_Attributes :: "(string \<times> string) list"

record SamplingResult =
  Decision :: SamplingDecision
  Tracestate :: string

record sampler =
  traceIDUpperBounds :: "SpanKind \<rightharpoonup> uint64"

definition ShouldSample :: "sampler \<Rightarrow> SamplingParameters \<Rightarrow> SamplingResult" where
  "ShouldSample s sp =
     (let psc = SpanContextFromContext (sp_ParentContext sp);
          x = drop_bit 1 (BigEndian_Uint64 (take 8 (drop 8 (sp_TraceID sp))));
          bound = (case traceIDUpperBounds s (sp_Kind sp) of
                     Some b \<Rightarrow> b
                   | None \<Rightarrow> index (traceIDUpperBounds s) SpanKindUnspecified)
      in if x < bound
         then \<lparr>Decision = RecordAndSample, Tracestate = sc_TraceState psc\<rparr>
         else \<lparr>Decision = Drop, Tracestate = sc_TraceState psc\<rparr>)"

definition getSampler :: "(float64 \<Rightarrow> uint64) \<Rightarrow> config \<Rightarrow> sampler" where
  "getSampler impl conf =
     \<lparr>traceIDUpperBounds =
        (\<lambda>key. case samplingRateMap conf key of
                  None \<Rightarrow> None
                | Some v \<Rightarrow> Some (uint64_of_float64 impl (v * 2 ^ 63)))\<rparr>"

section \<open>The sampler decides on the low 64 bits\<close>

lemma int_or_push:
  fixes a c :: int
  assumes "0 \<le> a" "a < 2 ^ k"
  shows "a OR push_bit k c = a + 2 ^ k * c"
proof -
  have t: "take_bit k a = a"
    using assms by (simp add: take_bit_int_eq_self)
  have "take_bit k a AND push_bit k c = 0"
    by (simp add: bit_eq_iff bit_simps)
  then have "a AND push_bit k c = 0" by (simp only: t)
  then have "a + push_bit k c = a OR push_bit k c"
    by (rule disjunctive_add_eq_or)
  then show ?thesis by (simp add: push_bit_eq_mult mult.commute)
qed

lemma uint_push_byte:
  fixes b :: byte
  assumes "k \<le> 56"
  shows "uint (push_bit k (ucast b :: uint64)) = push_bit k (uint b)"
proof -
  have "uint b < 2 ^ 8" using uint_lt2p [of b] by simp
  then have "2 ^ k * uint b < 2 ^ k * 2 ^ 8" by simp
  also have "\<dots> = (2 :: int) ^ (k + 8)" by (simp add: power_add)
  also have "\<dots> \<le> (2 :: int) ^ 64"
    by (rule power_increasing) (use assms in simp_all)
  finally have lt: "2 ^ k * uint b < 2 ^ 64" .
  have u: "uint (ucast b :: uint64) = uint b"
    by (simp add: uint_up_ucast is_up)
  have "uint (push_bit k (ucast b :: uint64)) = take_bit 64 (push_bit k (uint b))"
    by (simp add: unsigned_push_bit_eq u)
  also have "\<dots> = push_bit k (uint b)"
    using lt by (simp add: take_bit_int_eq_self push_bit_eq_mult mult.commute)
  finally show ?thesis .
qed

lemma BigEndian_Uint64_value:
  "uint (BigEndian_Uint64 [b0, b1, b2, b3, b4, b5, b6, b7]) =
     BigEndian_value [b0, b1, b2, b3, b4, b5, b6, b7]"
proof -
  have bound: "\<And>b :: byte. 0 \<le> uint b \<and> uint b < 256"
    using uint_lt2p [where 'a = 8] by simp
  have u: "\<And>b :: byte. uint (ucast b :: uint64) = uint b"
    by (simp add: uint_up_ucast is_up)
  define a1 where "a1 = uint b7 + 2 ^ 8 * uint b6"
  define a2 where "a2 = a1 + 2 ^ 16 * uint b5"
  define a3 where "a3 = a2 + 2 ^ 24 * uint b4"
  define a4 where "a4 = a3 + 2 ^ 32 * uint b3"
  define a5 where "a5 = a4 + 2 ^ 40 * uint b2"
  define a6 where "a6 = a5 + 2 ^ 48 * uint b1"
  define a7 where "a7 = a6 + 2 ^ 56 * uint b0"
  have r1: "0 \<le> a1 \<and> a1 < 2 ^ 16"
    using bound [of b7] bound [of b6] by (simp add: a1_def)
  have r2: "0 \<le> a2 \<and> a2 < 2 ^ 24"
    using r1 bound [of b5] by (simp add: a2_def)
  have r3: "0 \<le> a3 \<and> a3 < 2 ^ 32"
    using r2 bound [of b4] by (simp add: a3_def)
  have r4: "0 \<le> a4 \<and> a4 < 2 ^ 40"
    using r3 bound [of b3] by (simp add: a4_def)
  have r5: "0 \<le> a5 \<and> a5 < 2 ^ 48"
    using r4 bound [of b2] by (simp add: a5_def)
  have r6: "0 \<le> a6 \<and> a6 < 2 ^ 56"
    using r5 bound [of b1] by (simp add: a6_def)
  have o1: "uint b7 OR push_bit 8 (uint b6) = a1"
    unfolding a1_def using bound [of b7] by (intro int_or_push) simp_all
  have o2: "a1 OR push_bit 16 (uint b5) = a2"
    unfolding a2_def using r1 by (intro int_or_push) simp_all
  have o3: "a2 OR push_bit 24 (uint b4) = a3"
    unfolding a3_def using r2 by (intro int_or_push) simp_all
  have o4: "a3 OR push_bit 32 (uint b3) = a4"
    unfolding a4_def using r3 by (intro int_or_push) simp_all
  have o5: "a4 OR push_bit 40 (uint b2) = a5"
    unfolding a5_def using r4 by (intro int_or_push) simp_all
  have o6: "a5 OR push_bit 48 (uint b1) = a6"
    unfolding a6_def using r5 by (intro int_or_push) simp_all
  have o7: "a6 OR push_bit 56 (uint b0) = a7"
    unfolding a7_def using r6 by (intro int_or_push) simp_all
  have "uint (BigEndian_Uint64 [b0, b1, b2, b3, b4, b5, b6, b7]) = a7"
    by (simp add: BigEndian_Uint64_def uint_or uint_push_byte u o1 o2 o3 o4 o5 o6 o7)
  also have "a7 = BigEndian_value [b0, b1, b2, b3, b4, b5, b6, b7]"
    by (simp add: BigEndian_value_def a7_def a6_def a5_def a4_def a3_def a2_def a1_def)
  finally show ?thesis .
qed


lemma BigEndian_value_append:
  "BigEndian_value (xs @ ys) = BigEndian_value xs * 256 ^ length ys + BigEndian_value ys"
proof -
  define f :: "int \<Rightarrow> byte \<Rightarrow> int" where "f = (\<lambda>a b. a * 256 + uint b)"
  have step: "\<And>a b. f a b = a * 256 + uint b" by (simp add: f_def)
  have g: "foldl f a ys = a * 256 ^ length ys + foldl f 0 ys" for a
  proof (induction ys rule: rev_induct)
    case Nil
    show ?case by simp
  next
    case (snoc y ys)
    have "foldl f a (ys @ [y]) = foldl f a ys * 256 + uint y"
      by (simp add: step)
    also have "\<dots> = (a * 256 ^ length ys + foldl f 0 ys) * 256 + uint y"
      by (simp only: snoc.IH)
    also have "\<dots> = a * 256 ^ length (ys @ [y]) + (foldl f 0 ys * 256 + uint y)"
      by (simp add: algebra_simps)
    also have "foldl f 0 ys * 256 + uint y = foldl f 0 (ys @ [y])"
      by (simp add: step)
    finally show ?case .
  qed
  have "BigEndian_value (xs @ ys) = foldl f (foldl f 0 xs) ys"
    by (simp add: BigEndian_value_def f_def)
  also have "\<dots> = foldl f 0 xs * 256 ^ length ys + foldl f 0 ys"
    by (rule g)
  finally show ?thesis by (simp add: BigEndian_value_def f_def)
qed

lemma length8_cases:
  "length (ys :: 'a list) = 8 \<Longrightarrow> \<exists>b0 b1 b2 b3 b4 b5 b6 b7. ys = [b0, b1, b2, b3, b4, b5, b6, b7]"
  by (auto simp: numeral_eq_Suc length_Suc_conv)

lemma low64:
  assumes "length tid = 16"
  shows "uint (BigEndian_Uint64 (take 8 (drop 8 tid))) = BigEndian_value tid mod 2 ^ 64"
proof -
  have "length (take 8 (drop 8 tid)) = 8" using assms by simp
  then obtain b0 b1 b2 b3 b4 b5 b6 b7
    where ys: "take 8 (drop 8 tid) = [b0, b1, b2, b3, b4, b5, b6, b7]"
    using length8_cases by blast
  have v: "uint (BigEndian_Uint64 (take 8 (drop 8 tid))) = BigEndian_value (take 8 (drop 8 tid))"
    unfolding ys by (rule BigEndian_Uint64_value)
  have t: "tid = take 8 tid @ take 8 (drop 8 tid)"
    using assms by (metis append_take_drop_id order_refl take_all_iff numeral_Bit0 length_drop diff_add_inverse)
  have "BigEndian_value tid = BigEndian_value (take 8 tid) * 256 ^ 8 + BigEndian_value (take 8 (drop 8 tid))"
    by (subst t, subst BigEndian_value_append) (simp add: assms)
  moreover have "0 \<le> uint (BigEndian_Uint64 (take 8 (drop 8 tid)))"
    "uint (BigEndian_Uint64 (take 8 (drop 8 tid))) < 2 ^ 64"
    using uint_lt2p [of "BigEndian_Uint64 (take 8 (drop 8 tid))"] by simp_all
  ultimately show ?thesis
    by (simp add: v)
qed

text \<open>
  The quantities the sampling claims speak of: the rate of a kind (the entry of the kind,
  else the entry of \<open>SpanKindUnspecified\<close>, read as Go reads a map), and \<open>x\<close>, the low 64
  bits of the 128-bit identifier shifted right by one.
\<close>

definition rate :: "(SpanKind \<rightharpoonup> float64) \<Rightarrow> SpanKind \<Rightarrow> float64" where
  "rate m kind = (case m kind of Some r \<Rightarrow> r | None \<Rightarrow> index m SpanKindUnspecified)"

definition sample_x :: "byte list \<Rightarrow> int" where
  "sample_x tid = (BigEndian_value tid mod 2 ^ 64) div 2"

lemma float_truncate_zero: "float_truncate 0 = 0"
  by (simp add: float_truncate_def)

lemma bound_lookup:
  "(case traceIDUpperBounds (getSampler impl conf) kind of
      Some b \<Rightarrow> b
    | None \<Rightarrow> index (traceIDUpperBounds (getSampler impl conf)) SpanKindUnspecified) =
   uint64_of_float64 impl (rate (samplingRateMap conf) kind * 2 ^ 63)"
  by (simp add: getSampler_def rate_def index_def uint64_of_float64_def float_truncate_def
      split: option.splits)

lemma float_truncate_range:
  "- 1 < f \<Longrightarrow> f < 2 ^ 64 \<Longrightarrow> 0 \<le> float_truncate f \<and> float_truncate f < 2 ^ 64"
proof -
  assume a: "- 1 < f" "f < 2 ^ 64"
  show ?thesis
  proof (cases "0 \<le> f")
    case True
    have "\<lfloor>f\<rfloor> < 2 ^ 64" using a(2) by (simp add: floor_less_iff)
    with True show ?thesis by (simp add: float_truncate_def)
  next
    case False
    then have "\<lceil>f\<rceil> = 0" using a(1) by (simp add: ceiling_eq_iff)
    with False show ?thesis by (simp add: float_truncate_def)
  qed
qed

lemma uint_conv:
  "- 1 < f \<Longrightarrow> f < 2 ^ 64 \<Longrightarrow> uint (uint64_of_float64 impl f) = float_truncate f"
  using float_truncate_range [of f] by (simp add: uint64_of_float64_def uint_word_of_int)

lemma float_truncate_mono: "f \<le> g \<Longrightarrow> float_truncate f \<le> float_truncate g"
proof -
  assume le: "f \<le> g"
  show ?thesis
  proof (cases "0 \<le> f")
    case True
    then have "0 \<le> g" using le by simp
    with True show ?thesis using floor_mono [OF le] by (simp add: float_truncate_def)
  next
    case False
    then have c: "\<lceil>f\<rceil> \<le> 0" by (simp add: ceiling_le_iff)
    show ?thesis
    proof (cases "0 \<le> g")
      case True
      then have "0 \<le> \<lfloor>g\<rfloor>" by simp
      with c have "\<lceil>f\<rceil> \<le> \<lfloor>g\<rfloor>" by (rule order_trans)
      moreover have "float_truncate f = \<lceil>f\<rceil>"
        using False by (simp add: float_truncate_def)
      moreover have "float_truncate g = \<lfloor>g\<rfloor>"
        using True by (simp add: float_truncate_def)
      ultimately show ?thesis by (simp only:)
    next
      case g: False
      with False show ?thesis using ceiling_mono [OF le] by (simp add: float_truncate_def)
    qed
  qed
qed

lemma uint_shift1: "uint (drop_bit 1 (w :: uint64)) = uint w div 2"
  by (simp add: drop_bit_eq_div uint_div)

lemma uint_x:
  "length tid = 16 \<Longrightarrow>
     uint (drop_bit 1 (BigEndian_Uint64 (take 8 (drop 8 tid)))) = sample_x tid"
  by (simp only: uint_shift1 low64 sample_x_def)

lemma Decision_ShouldSample:
  "Decision (ShouldSample s sp) = RecordAndSample \<longleftrightarrow>
     uint (drop_bit 1 (BigEndian_Uint64 (take 8 (drop 8 (sp_TraceID sp))))) <
     uint (case traceIDUpperBounds s (sp_Kind sp) of
             Some b \<Rightarrow> b
           | None \<Rightarrow> index (traceIDUpperBounds s) SpanKindUnspecified)"
  by (simp add: ShouldSample_def Let_def word_less_def)


lemma sample_x_range: "0 \<le> sample_x tid \<and> sample_x tid < 2 ^ 63"
proof -
  have "0 \<le> BigEndian_value tid mod 2 ^ 64" "BigEndian_value tid mod 2 ^ 64 < 2 ^ 64"
    by simp_all
  then show ?thesis unfolding sample_x_def by simp
qed

lemma sampled_iff:
  assumes "length (sp_TraceID sp) = 16"
    and "- 1 < rate (samplingRateMap conf) (sp_Kind sp) * 2 ^ 63"
    and "rate (samplingRateMap conf) (sp_Kind sp) * 2 ^ 63 < 2 ^ 64"
  shows "Decision (ShouldSample (getSampler impl conf) sp) = RecordAndSample \<longleftrightarrow>
     sample_x (sp_TraceID sp) <
       float_truncate (rate (samplingRateMap conf) (sp_Kind sp) * 2 ^ 63)"
  by (simp only: Decision_ShouldSample bound_lookup uint_x [OF assms(1)]
      uint_conv [OF assms(2) assms(3)])

lemma Decision_cases:
  "Decision (ShouldSample s sp) = Drop \<longleftrightarrow> Decision (ShouldSample s sp) \<noteq> RecordAndSample"
  by (simp add: ShouldSample_def Let_def)

subsection \<open>Example inputs\<close>

definition conf_of_rates :: "(SpanKind \<rightharpoonup> float64) \<Rightarrow> config" where
  "conf_of_rates m =
     \<lparr>otelEndpoint = [], projectID = [], resourceAttributes = [],
      metricSamplingRate = 0, samplingRateMap = m\<rparr>"

definition params_of :: "byte list \<Rightarrow> SpanKind \<Rightarrow> SamplingParameters" where
  "params_of tid kind =
     \<lparr>sp_ParentContext =
        \<lparr>ctx_Value = Map.empty,
         ctx_SpanContext = \<lparr>sc_TraceID = replicate 16 0, sc_SpanID = replicate 8 0,
                            sc_TraceState = []\<rparr>\<rparr>,
      sp_TraceID = tid, sp_Name = [], sp_Kind = kind, sp_Attributes = []\<rparr>"

definition half_rates :: "SpanKind \<rightharpoonup> float64" where
  "half_rates = [SpanKindUnspecified \<mapsto> 1 / 2]"

definition rates_1e_4 :: "SpanKind \<rightharpoonup> float64" where
  "rates_1e_4 = [SpanKindUnspecified \<mapsto> 7378697629483821 / 2 ^ 66]"

definition tid_quarter :: "byte list" where
  "tid_quarter = [0, 0, 0, 0, 0, 0, 0, 1, 64, 0, 0, 0, 0, 0, 0, 0]"

definition tid_edge :: "byte list" where
  "tid_edge = [0, 0, 0, 0, 0, 0, 0, 1, 0, 6, 141, 184, 186, 199, 16, 202]"

definition full_rates :: "SpanKind \<rightharpoonup> float64" where
  "full_rates = [SpanKindUnspecified \<mapsto> 1]"

lemma sample_x_tid_quarter: "sample_x tid_quarter = 2 ^ 61"
  by (simp add: sample_x_def BigEndian_value_def tid_quarter_def)

lemma sample_x_tid_edge: "sample_x tid_edge = 922337203685477"
  by (simp add: sample_x_def BigEndian_value_def tid_edge_def)

lemma rate_half_rates: "rate half_rates SpanKindClient = 1 / 2"
  by (simp add: rate_def half_rates_def index_def SpanKindUnspecified_def SpanKindClient_def)

lemma rate_rates_1e_4: "rate rates_1e_4 SpanKindClient = 7378697629483821 / 2 ^ 66"
  by (simp add: rate_def rates_1e_4_def index_def SpanKindUnspecified_def SpanKindClient_def)

lemma rate_full_rates: "rate full_rates SpanKindClient = 1"
  by (simp add: rate_def full_rates_def index_def SpanKindUnspecified_def SpanKindClient_def)

lemma sampled_half_quarter:
  "Decision (ShouldSample (getSampler impl (conf_of_rates half_rates))
       (params_of tid_quarter SpanKindClient)) = RecordAndSample"
proof -
  let ?conf = "conf_of_rates half_rates"
  let ?sp = "params_of tid_quarter SpanKindClient"
  have c: "samplingRateMap ?conf = half_rates" by (simp add: conf_of_rates_def)
  have k: "sp_Kind ?sp = SpanKindClient" by (simp add: params_of_def)
  have t: "sp_TraceID ?sp = tid_quarter" by (simp add: params_of_def)
  have l: "length (sp_TraceID ?sp) = 16" by (simp add: params_of_def tid_quarter_def)
  have f: "float_truncate (1 / 2 * 2 ^ 63) = 2 ^ 62"
    by (simp add: float_truncate_def)
  have lo: "- 1 < rate (samplingRateMap ?conf) (sp_Kind ?sp) * 2 ^ 63"
    by (simp add: c k rate_half_rates)
  have hi: "rate (samplingRateMap ?conf) (sp_Kind ?sp) * 2 ^ 63 < 2 ^ 64"
    by (simp add: c k rate_half_rates)
  have "sample_x (sp_TraceID ?sp) <
      float_truncate (rate (samplingRateMap ?conf) (sp_Kind ?sp) * 2 ^ 63)"
    by (simp only: c k t rate_half_rates f sample_x_tid_quarter) simp
  with sampled_iff [OF l lo hi, of impl] show ?thesis
    by blast
qed

lemma sampled_mono:
  assumes lo: "- 1 < rate (samplingRateMap conf1) (sp_Kind sp) * 2 ^ 63"
    and le: "rate (samplingRateMap conf1) (sp_Kind sp) \<le> rate (samplingRateMap conf2) (sp_Kind sp)"
    and hi: "rate (samplingRateMap conf2) (sp_Kind sp) * 2 ^ 63 < 2 ^ 64"
    and s1: "Decision (ShouldSample (getSampler impl conf1) sp) = RecordAndSample"
  shows "Decision (ShouldSample (getSampler impl conf2) sp) = RecordAndSample"
proof -
  let ?r1 = "rate (samplingRateMap conf1) (sp_Kind sp) * 2 ^ 63"
  let ?r2 = "rate (samplingRateMap conf2) (sp_Kind sp) * 2 ^ 63"
  let ?x = "uint (drop_bit 1 (BigEndian_Uint64 (take 8 (drop 8 (sp_TraceID sp)))))"
  have le': "?r1 \<le> ?r2" using le by simp
  have hi1: "?r1 < 2 ^ 64" using le' hi by (rule le_less_trans)
  have lo2: "- 1 < ?r2" using lo le' by (rule less_le_trans)
  have "?x < float_truncate ?r1"
    using s1 by (simp only: Decision_ShouldSample bound_lookup uint_conv [OF lo hi1])
  also have "\<dots> \<le> float_truncate ?r2" by (rule float_truncate_mono [OF le'])
  finally show ?thesis
    by (simp only: Decision_ShouldSample bound_lookup uint_conv [OF lo2 hi])
qed

section \<open>Claims about the sampler\<close>

text \<open>
  C1 (as amended). For every 16-byte trace identifier, span kind and configured rate map
  whose rate for the kind lies where the conversion to \<open>uint64\<close> is defined (every rate in
  \<open>[0, 1]\<close> does), the decision is record-and-sample if and only if \<open>x < bound\<close>, where
  \<open>x\<close> is the low 64 bits of the identifier shifted right by one and \<open>bound\<close> is
  \<open>rate * 2^63\<close> with its fraction discarded (truncated, not rounded to the nearest
  integer); otherwise the decision is drop. Rate 1 gives the bound \<open>2^63\<close> and every
  identifier is sampled; rate 0 gives the bound 0 and none is.
\<close>

theorem ShouldSample_decision:
  assumes "length (sp_TraceID sp) = 16"
    and "- 1 < rate (samplingRateMap conf) (sp_Kind sp) * 2 ^ 63"
    and "rate (samplingRateMap conf) (sp_Kind sp) * 2 ^ 63 < 2 ^ 64"
  shows "(Decision (ShouldSample (getSampler impl conf) sp) = RecordAndSample \<longleftrightarrow>
            sample_x (sp_TraceID sp) <
              float_truncate (rate (samplingRateMap conf) (sp_Kind sp) * 2 ^ 63)) \<and>
         (Decision (ShouldSample (getSampler impl conf) sp) = Drop \<longleftrightarrow>
            \<not> sample_x (sp_TraceID sp) <
              float_truncate (rate (samplingRateMap conf) (sp_Kind sp) * 2 ^ 63)) \<and>
         (rate (samplingRateMap conf) (sp_Kind sp) = 1 \<longrightarrow>
            float_truncate (rate (samplingRateMap conf) (sp_Kind sp) * 2 ^ 63) = 2 ^ 63 \<and>
            Decision (ShouldSample (getSampler impl conf) sp) = RecordAndSample) \<and>
         (rate (samplingRateMap conf) (sp_Kind sp) = 0 \<longrightarrow>
            float_truncate (rate (samplingRateMap conf) (sp_Kind sp) * 2 ^ 63) = 0 \<and>
            Decision (ShouldSample (getSampler impl conf) sp) = Drop)"
proof -
  note iff = sampled_iff [OF assms, of impl]
  have one: "float_truncate (1 * 2 ^ 63) = 2 ^ 63"
    by (simp add: float_truncate_def)
  have zero: "float_truncate (0 * 2 ^ 63) = 0"
    by (simp add: float_truncate_def)
  show ?thesis
    using iff one zero sample_x_range [of "sp_TraceID sp"]
      Decision_cases [of "getSampler impl conf" sp]
    by auto
qed

theorem ShouldSample_decision_witness:
  "Decision (ShouldSample (getSampler (\<lambda>f. 0) (conf_of_rates half_rates))
       (params_of tid_quarter SpanKindClient)) = RecordAndSample"
proof -
  let ?conf = "conf_of_rates half_rates"
  let ?sp = "params_of tid_quarter SpanKindClient"
  have c: "samplingRateMap ?conf = half_rates" by (simp add: conf_of_rates_def)
  have k: "sp_Kind ?sp = SpanKindClient" by (simp add: params_of_def)
  have t: "sp_TraceID ?sp = tid_quarter" by (simp add: params_of_def)
  have l: "length (sp_TraceID ?sp) = 16" by (simp add: params_of_def tid_quarter_def)
  have f: "float_truncate (1 / 2 * 2 ^ 63) = 2 ^ 62"
    by (simp add: float_truncate_def)
  have lo: "- 1 < rate (samplingRateMap ?conf) (sp_Kind ?sp) * 2 ^ 63"
    by (simp add: c k rate_half_rates)
  have hi: "rate (samplingRateMap ?conf) (sp_Kind ?sp) * 2 ^ 63 < 2 ^ 64"
    by (simp add: c k rate_half_rates)
  have "sample_x (sp_TraceID ?sp) <
      float_truncate (rate (samplingRateMap ?conf) (sp_Kind ?sp) * 2 ^ 63)"
    by (simp only: c k t rate_half_rates f sample_x_tid_quarter) simp
  with ShouldSample_decision [OF l lo hi, of "\<lambda>f. 0"] show ?thesis
    by blast
qed

text \<open>
  C1 as stated, with the bound rounded to the nearest integer, fails for the rate
  \<open>0.0001\<close>: the \<open>float64\<close> nearest to it is \<open>7378697629483821 / 2^66\<close>, so that
  \<open>rate * 2^63 = 922337203685477.625\<close>, which rounds to \<open>922337203685478\<close> and truncates to
  \<open>922337203685477\<close>. The identifier whose low 64 bits are \<open>2 * 922337203685477\<close> has
  \<open>x = 922337203685477\<close>: below the rounded bound, and dropped by the sampler.
\<close>

theorem ShouldSample_round_counterexample:
  "\<not> (Decision (ShouldSample (getSampler (\<lambda>f. 0) (conf_of_rates rates_1e_4))
           (params_of tid_edge SpanKindClient)) = RecordAndSample \<longleftrightarrow>
        sample_x tid_edge < round (rate rates_1e_4 SpanKindClient * 2 ^ 63))"
proof -
  let ?conf = "conf_of_rates rates_1e_4"
  let ?sp = "params_of tid_edge SpanKindClient"
  have c: "samplingRateMap ?conf = rates_1e_4" by (simp add: conf_of_rates_def)
  have k: "sp_Kind ?sp = SpanKindClient" by (simp add: params_of_def)
  have t: "sp_TraceID ?sp = tid_edge" by (simp add: params_of_def)
  have l: "length (sp_TraceID ?sp) = 16" by (simp add: params_of_def tid_edge_def)
  have rnd: "round (7378697629483821 / 2 ^ 66 * 2 ^ 63 :: rat) = 922337203685478"
    by (simp add: round_def floor_eq_iff)
  have tr: "float_truncate (7378697629483821 / 2 ^ 66 * 2 ^ 63) = 922337203685477"
    by (simp add: float_truncate_def floor_eq_iff)
  have lo: "- 1 < rate (samplingRateMap ?conf) (sp_Kind ?sp) * 2 ^ 63"
    by (simp add: c k rate_rates_1e_4)
  have hi: "rate (samplingRateMap ?conf) (sp_Kind ?sp) * 2 ^ 63 < 2 ^ 64"
    by (simp add: c k rate_rates_1e_4)
  have "\<not> sample_x (sp_TraceID ?sp) <
      float_truncate (rate (samplingRateMap ?conf) (sp_Kind ?sp) * 2 ^ 63)"
    by (simp only: c k t rate_rates_1e_4 tr sample_x_tid_edge)
  then have "Decision (ShouldSample (getSampler (\<lambda>f. 0) ?conf) ?sp) \<noteq> RecordAndSample"
    using sampled_iff [OF l lo hi, of "\<lambda>f. 0"] by blast
  moreover have "sample_x tid_edge < round (rate rates_1e_4 SpanKindClient * 2 ^ 63)"
    by (simp only: rate_rates_1e_4 rnd sample_x_tid_edge)
  ultimately show ?thesis by blast
qed

text \<open>
  C8. The decision is a function of the trace identifier and the span kind alone: two
  evaluations with the same identifier and kind return the same decision, whatever else
  the sampling parameters hold. And it is monotonic in the rate: for two configurations
  whose rates for the kind satisfy \<open>r1 \<le> r2\<close> (both where the conversion is defined, as
  all rates in \<open>[0, 1]\<close> are), every identifier sampled under \<open>r1\<close> is sampled under \<open>r2\<close>.
\<close>

theorem ShouldSample_deterministic_monotone:
  "(sp_TraceID sp' = sp_TraceID sp \<and> sp_Kind sp' = sp_Kind sp \<longrightarrow>
      Decision (ShouldSample s sp') = Decision (ShouldSample s sp)) \<and>
   (- 1 < rate (samplingRateMap conf1) (sp_Kind sp) * 2 ^ 63 \<and>
    rate (samplingRateMap conf1) (sp_Kind sp) \<le> rate (samplingRateMap conf2) (sp_Kind sp) \<and>
    rate (samplingRateMap conf2) (sp_Kind sp) * 2 ^ 63 < 2 ^ 64 \<and>
    Decision (ShouldSample (getSampler impl conf1) sp) = RecordAndSample \<longrightarrow>
    Decision (ShouldSample (getSampler impl conf2) sp) = RecordAndSample)"
proof -
  have det: "sp_TraceID sp' = sp_TraceID sp \<and> sp_Kind sp' = sp_Kind sp \<longrightarrow>
      Decision (ShouldSample s sp') = Decision (ShouldSample s sp)"
    by (simp add: ShouldSample_def Let_def)
  show ?thesis using det sampled_mono [of conf1 sp conf2 impl] by blast
qed

theorem ShouldSample_deterministic_monotone_witness:
  "Decision (ShouldSample (getSampler (\<lambda>f. 0) (conf_of_rates full_rates))
       (params_of tid_quarter SpanKindClient)) = RecordAndSample \<and>
   Decision (ShouldSample (getSampler (\<lambda>f. 0) (conf_of_rates full_rates))
       ((params_of tid_quarter SpanKindClient)\<lparr>sp_Name := ''other''\<rparr>)) = RecordAndSample"
proof -
  let ?c1 = "conf_of_rates half_rates"
  let ?c2 = "conf_of_rates full_rates"
  let ?sp = "params_of tid_quarter SpanKindClient"
  have k: "sp_Kind ?sp = SpanKindClient" by (simp add: params_of_def)
  have c1: "samplingRateMap ?c1 = half_rates" by (simp add: conf_of_rates_def)
  have c2: "samplingRateMap ?c2 = full_rates" by (simp add: conf_of_rates_def)
  have h: "- 1 < rate (samplingRateMap ?c1) (sp_Kind ?sp) * 2 ^ 63 \<and>
      rate (samplingRateMap ?c1) (sp_Kind ?sp) \<le> rate (samplingRateMap ?c2) (sp_Kind ?sp) \<and>
      rate (samplingRateMap ?c2) (sp_Kind ?sp) * 2 ^ 63 < 2 ^ 64 \<and>
      Decision (ShouldSample (getSampler (\<lambda>f. 0) ?c1) ?sp) = RecordAndSample"
    by (simp add: k c1 c2 rate_half_rates rate_full_rates sampled_half_quarter)
  have same: "sp_TraceID (?sp\<lparr>sp_Name := ''other''\<rparr>) = sp_TraceID ?sp \<and>
      sp_Kind (?sp\<lparr>sp_Name := ''other''\<rparr>) = sp_Kind ?sp"
    by simp
  have m: "Decision (ShouldSample (getSampler (\<lambda>f. 0) ?c2) ?sp) = RecordAndSample"
    using ShouldSample_deterministic_monotone
      [of "?sp" "?sp" "getSampler (\<lambda>f. 0) ?c2" ?c1 ?c2 "\<lambda>f. 0"] h
    by blast
  have d: "Decision (ShouldSample (getSampler (\<lambda>f. 0) ?c2) (?sp\<lparr>sp_Name := ''other''\<rparr>)) =
      Decision (ShouldSample (getSampler (\<lambda>f. 0) ?c2) ?sp)"
    using ShouldSample_deterministic_monotone
      [of "?sp\<lparr>sp_Name := ''other''\<rparr>" "?sp" "getSampler (\<lambda>f. 0) ?c2" ?c1 ?c2 "\<lambda>f. 0"] same
    by blast
  show ?thesis using m d by simp
qed

section \<open>Lifecycle\<close>

text \<open>
  The package keeps its lifecycle in global variables guarded by \<open>stateMutex\<close>: the state,
  the handle of the export pipeline and the configuration. Here they are the fields of a
  \<open>world\<close>, passed through every operation, together with the two channels (each of
  capacity 1, modelled by the number of messages buffered), the cancellation tokens that
  have been cancelled, the supervisor goroutines still waiting (each with the token of the
  context it was started with), and the trace of effects on the collaborators: lines
  logged, a tracer provider built and installed, a flush and a release of the provider,
  a supervisor goroutine launched. The last field is the provider that the package's
  tracer delegates to, if one has been installed.

  What the collaborators answer is an input: \<open>start_env\<close> holds the results of building
  the exporter and the resource (and the platform's float conversion, see
  \<open>uint64_of_float64\<close>), \<open>stop_env\<close> the results of \<open>ForceFlush\<close> and \<open>Shutdown\<close> of the
  provider.
\<close>

datatype appState = idle | started | stopped

datatype exporter_option = WithEndpoint string | WithInsecure | WithCompression_Gzip

record TracerProvider =
  tp_sampler :: sampler
  tp_exporter_options :: "exporter_option list"
  tp_resource :: "(string \<times> string) list"

record OTLP =
  tracerProvider :: TracerProvider

datatype cancellation = Background | Cancellable nat

datatype effect =
    LogError string
  | NewTracerProvider TracerProvider
  | ForceFlush
  | ProviderShutdown
  | GoSupervisor cancellation

record start_env =
  float_conv :: "float64 \<Rightarrow> uint64"
  exporter_err :: "error option"
  resource_err :: "error option"

record stop_env =
  flush_err :: "error option"
  release_err :: "error option"

record world =
  state :: appState
  otlp :: "OTLP option"
  conf :: config
  interruptChan :: nat
  signalChan :: nat
  cancelled :: "nat list"
  supervisors :: "cancellation list"
  effects :: "effect list"
  tracer_delegate :: "TracerProvider option"

text \<open>
  \<open>init\<close>: empty channels, a fresh configuration with the default endpoint, state \<open>idle\<close>.
\<close>

definition OTLPDefaultEndpoint :: string where
  "OTLPDefaultEndpoint = ''https://otel.getscout.us:4318''"

definition SetOtelEndpoint :: "string \<Rightarrow> world \<Rightarrow> world" where
  "SetOtelEndpoint newotelEndpoint w = w\<lparr>conf := (conf w)\<lparr>otelEndpoint := newotelEndpoint\<rparr>\<rparr>"

definition init_world :: world where
  "init_world =
     SetOtelEndpoint OTLPDefaultEndpoint
       \<lparr>state = idle, otlp = None,
        conf = \<lparr>otelEndpoint = [], projectID = [], resourceAttributes = [],
                metricSamplingRate = 0, samplingRateMap = Map.empty\<rparr>,
        interruptChan = 0, signalChan = 0, cancelled = [], supervisors = [], effects = [],
        tracer_delegate = None\<rparr>"

text \<open>An \<open>Option\<close> is a function applied to the configuration.\<close>

type_synonym Option = "config \<Rightarrow> config"

definition WithProjectID :: "string \<Rightarrow> Option" where
  "WithProjectID p c = c\<lparr>projectID := p\<rparr>"

definition WithMetricSamplingRate :: "float64 \<Rightarrow> Option" where
  "WithMetricSamplingRate samplingRate c = c\<lparr>metricSamplingRate := samplingRate\<rparr>"

definition WithSamplingRate :: "float64 \<Rightarrow> Option" where
  "WithSamplingRate samplingRate c =
     c\<lparr>samplingRateMap := [SpanKindUnspecified \<mapsto> samplingRate]\<rparr>"

definition WithSamplingRateMap :: "(SpanKind \<rightharpoonup> float64) \<Rightarrow> Option" where
  "WithSamplingRateMap rates c = c\<lparr>samplingRateMap := rates\<rparr>"

definition WithServiceName :: "string \<Rightarrow> Option" where
  "WithServiceName serviceName c =
     c\<lparr>resourceAttributes := resourceAttributes c @ [(''service.name'', serviceName)]\<rparr>"

definition WithServiceVersion :: "string \<Rightarrow> Option" where
  "WithServiceVersion serviceVersion c =
     c\<lparr>resourceAttributes := resourceAttributes c @ [(''service.version'', serviceVersion)]\<rparr>"

definition WithEnvironment :: "string \<Rightarrow> Option" where
  "WithEnvironment environment c =
     c\<lparr>resourceAttributes :=
         resourceAttributes c @ [(''deployment.environment'', environment)]\<rparr>"

text \<open>
  \<open>StartOTLP\<close> returns the lines it logged and the tracer provider it built, with the
  handle and the error of the Go function. \<open>StartWithContext\<close> applies the options, returns
  at once when the state is \<open>started\<close>, and otherwise builds the pipeline, logs a failure,
  sets the state to \<open>started\<close> either way and launches the supervisor.
\<close>

definition HasPrefix :: "string \<Rightarrow> string \<Rightarrow> bool" where
  "HasPrefix s p \<longleftrightarrow> take (length p) s = p"

definition StartOTLP :: "start_env \<Rightarrow> config \<Rightarrow> effect list \<times> OTLP option \<times> error option" where
  "StartOTLP env c =
     (let (options, logged) =
            (if HasPrefix (otelEndpoint c) ''http://''
             then ([WithEndpoint (drop 7 (otelEndpoint c)), WithInsecure], [])
             else if HasPrefix (otelEndpoint c) ''https://''
             then ([WithEndpoint (drop 8 (otelEndpoint c))], [])
             else ([], [LogError (''an invalid otlp endpoint was configured '' @ otelEndpoint c)]));
          options = options @ [WithCompression_Gzip]
      in case exporter_err env of
           Some (Error e) \<Rightarrow>
             (logged, None, Some (Error (''creating OTLP trace exporter: '' @ e)))
         | None \<Rightarrow>
             (case resource_err env of
                Some (Error e) \<Rightarrow>
                  (logged, None, Some (Error (''creating OTLP resource context: '' @ e)))
              | None \<Rightarrow>
                  (let h = \<lparr>tracerProvider =
                             \<lparr>tp_sampler = getSampler (float_conv env) c,
                              tp_exporter_options = options,
                              tp_resource = resourceAttributes c\<rparr>\<rparr>
                   in (logged @ [NewTracerProvider (tracerProvider h)], Some h, None))))"

text \<open>
  \<open>otel.SetTracerProvider\<close>, which \<open>StartOTLP\<close> calls on the provider it has built, as
  the package's tracer sees it. That tracer was taken from the global provider when the
  package was loaded; the tracing library hands it a delegate at the first call of
  \<open>SetTracerProvider\<close> and never again.
\<close>

definition SetTracerProvider :: "TracerProvider \<Rightarrow> TracerProvider option \<Rightarrow> TracerProvider option" where
  "SetTracerProvider tp delegate = (case delegate of None \<Rightarrow> Some tp | Some d \<Rightarrow> Some d)"

definition StartWithContext ::
    "cancellation \<Rightarrow> Option list \<Rightarrow> start_env \<Rightarrow> world \<Rightarrow> world" where
  "StartWithContext ctx opts env w =
     (let w1 = w\<lparr>conf := fold (\<lambda>opt c. opt c) opts (conf w)\<rparr> in
      if state w1 = started then w1
      else
        (let (effs, h, err) = StartOTLP env (conf w1);
             w2 = w1\<lparr>otlp := h, effects := effects w1 @ effs,
                    tracer_delegate :=
                      (case h of
                         Some handle \<Rightarrow>
                           SetTracerProvider (tracerProvider handle) (tracer_delegate w1)
                       | None \<Rightarrow> tracer_delegate w1)\<rparr>;
             w3 = (case err of
                     Some (Error e) \<Rightarrow>
                       w2\<lparr>effects := effects w2 @
                           [LogError (''failed to start opentelemetry exporter: '' @ e)]\<rparr>
                   | None \<Rightarrow> w2);
             w4 = w3\<lparr>state := started\<rparr>
         in w4\<lparr>supervisors := supervisors w4 @ [ctx],
               effects := effects w4 @ [GoSupervisor ctx]\<rparr>))"

text \<open>
  \<open>shutdown\<close> and the provider's \<open>shutdown\<close>: flush, log a failure, release, log a
  failure; then the state is written.
\<close>

definition IsRunning :: "world \<Rightarrow> bool" where
  "IsRunning w \<longleftrightarrow> state w = started"

definition OTLP_shutdown :: "stop_env \<Rightarrow> OTLP \<Rightarrow> effect list" where
  "OTLP_shutdown env h =
     [ForceFlush] @
     (case flush_err env of Some (Error e) \<Rightarrow> [LogError e] | None \<Rightarrow> []) @
     [ProviderShutdown] @
     (case release_err env of Some (Error e) \<Rightarrow> [LogError e] | None \<Rightarrow> [])"

definition shutdown :: "stop_env \<Rightarrow> world \<Rightarrow> world" where
  "shutdown env w =
     (if \<not> IsRunning w then w
      else
        (let w1 = (case otlp w of
                     Some h \<Rightarrow> w\<lparr>effects := effects w @ OTLP_shutdown env h\<rparr>
                   | None \<Rightarrow> w)
         in w1\<lparr>state := stopped\<rparr>))"

text \<open>
  \<open>Stop\<close> sends on \<open>interruptChan\<close> before it calls \<open>shutdown\<close>; with the buffer full the
  send blocks, which is \<open>None\<close>: the call goes on only after a supervisor has taken the
  message.
\<close>

definition Stop :: "stop_env \<Rightarrow> world \<Rightarrow> world option" where
  "Stop env w =
     (if interruptChan w < 1
      then Some (shutdown env (w\<lparr>interruptChan := interruptChan w + 1\<rparr>))
      else None)"

text \<open>
  The environment and the supervisors. The runtime puts a signal into \<open>signalChan\<close> unless
  its buffer is full; a caller cancels a context. A waiting supervisor takes a message
  from \<open>interruptChan\<close> and exits, or takes a signal, or sees its context done, and then
  calls \<open>shutdown\<close> and exits. Every body runs as one step.
\<close>

definition remove_nth :: "nat \<Rightarrow> 'a list \<Rightarrow> 'a list" where
  "remove_nth i xs = take i xs @ drop (Suc i) xs"

definition deliver_signal :: "world \<Rightarrow> world" where
  "deliver_signal w = (if signalChan w < 1 then w\<lparr>signalChan := signalChan w + 1\<rparr> else w)"

definition cancel :: "nat \<Rightarrow> world \<Rightarrow> world" where
  "cancel c w = w\<lparr>cancelled := c # cancelled w\<rparr>"

definition supervisor_interrupt :: "nat \<Rightarrow> world \<Rightarrow> world option" where
  "supervisor_interrupt i w =
     (if i < length (supervisors w) \<and> 0 < interruptChan w
      then Some (w\<lparr>interruptChan := interruptChan w - 1,
                   supervisors := remove_nth i (supervisors w)\<rparr>)
      else None)"

definition supervisor_signal :: "nat \<Rightarrow> stop_env \<Rightarrow> world \<Rightarrow> world option" where
  "supervisor_signal i env w =
     (if i < length (supervisors w) \<and> 0 < signalChan w
      then Some ((shutdown env (w\<lparr>signalChan := signalChan w - 1\<rparr>))
                   \<lparr>supervisors := remove_nth i (supervisors w)\<rparr>)
      else None)"

definition supervisor_done :: "nat \<Rightarrow> stop_env \<Rightarrow> world \<Rightarrow> world option" where
  "supervisor_done i env w =
     (if i < length (supervisors w)
      then (case supervisors w ! i of
              Cancellable c \<Rightarrow>
                if c \<in> set (cancelled w)
                then Some ((shutdown env w)\<lparr>supervisors := remove_nth i (supervisors w)\<rparr>)
                else None
            | Background \<Rightarrow> None)
      else None)"

datatype action =
    CallStart cancellation "Option list" start_env
  | CallStop stop_env
  | DeliverSignal
  | Cancel nat
  | SupervisorInterrupt nat
  | SupervisorSignal nat stop_env
  | SupervisorDone nat stop_env

fun step :: "action \<Rightarrow> world \<Rightarrow> world option" where
  "step (CallStart ctx opts env) w = Some (StartWithContext ctx opts env w)"
| "step (CallStop env) w = Stop env w"
| "step DeliverSignal w = Some (deliver_signal w)"
| "step (Cancel c) w = Some (cancel c w)"
| "step (SupervisorInterrupt i) w = supervisor_interrupt i w"
| "step (SupervisorSignal i env) w = supervisor_signal i env w"
| "step (SupervisorDone i env) w = supervisor_done i env w"

fun run :: "action list \<Rightarrow> world \<Rightarrow> world option" where
  "run [] w = Some w"
| "run (a # as) w = (case step a w of None \<Rightarrow> None | Some w' \<Rightarrow> run as w')"

fun is_start :: "action \<Rightarrow> bool" where
  "is_start (CallStart ctx opts env) = True"
| "is_start a = False"


subsection \<open>Counting what a run has built\<close>

fun is_NewTracerProvider :: "effect \<Rightarrow> bool" where
  "is_NewTracerProvider (NewTracerProvider p) = True"
| "is_NewTracerProvider e = False"

fun is_GoSupervisor :: "effect \<Rightarrow> bool" where
  "is_GoSupervisor (GoSupervisor c) = True"
| "is_GoSupervisor e = False"

definition pipelines_built :: "world \<Rightarrow> nat" where
  "pipelines_built w = length (filter is_NewTracerProvider (effects w))"

definition supervisors_launched :: "world \<Rightarrow> nat" where
  "supervisors_launched w = length (filter is_GoSupervisor (effects w))"

definition flushes :: "world \<Rightarrow> nat" where
  "flushes w = length (filter (\<lambda>e. e = ForceFlush) (effects w))"

definition start_succeeds :: "start_env \<Rightarrow> bool" where
  "start_succeeds env \<longleftrightarrow> exporter_err env = None \<and> resource_err env = None"

subsection \<open>Example environments\<close>

definition good_start :: start_env where
  "good_start = \<lparr>float_conv = (\<lambda>f. 0), exporter_err = None, resource_err = None\<rparr>"

definition failing_start :: start_env where
  "failing_start =
     \<lparr>float_conv = (\<lambda>f. 0), exporter_err = None,
      resource_err = Some (Error ''conflicting Schema URL'')\<rparr>"

definition quiet_stop :: stop_env where
  "quiet_stop = \<lparr>flush_err = None, release_err = None\<rparr>"

definition failing_stop :: stop_env where
  "failing_stop =
     \<lparr>flush_err = Some (Error ''flush failed''), release_err = Some (Error ''release failed'')\<rparr>"

subsection \<open>Lemmas on the lifecycle operations\<close>

lemma shutdown_not_started: "state w \<noteq> started \<Longrightarrow> shutdown env w = w"
  by (simp add: shutdown_def IsRunning_def)

lemma state_shutdown:
  "state (shutdown env w) = (if state w = started then stopped else state w)"
  by (simp add: shutdown_def IsRunning_def Let_def split: option.splits)

lemma effects_shutdown:
  "effects (shutdown env w) =
     (if state w = started
      then effects w @ (case otlp w of None \<Rightarrow> [] | Some h \<Rightarrow> OTLP_shutdown env h)
      else effects w)"
  by (simp add: shutdown_def IsRunning_def Let_def split: option.splits)

lemma shutdown_keeps:
  "otlp (shutdown env w) = otlp w" "conf (shutdown env w) = conf w"
  "supervisors (shutdown env w) = supervisors w"
  "interruptChan (shutdown env w) = interruptChan w"
  "signalChan (shutdown env w) = signalChan w" "cancelled (shutdown env w) = cancelled w"
  "tracer_delegate (shutdown env w) = tracer_delegate w"
  by (simp_all add: shutdown_def IsRunning_def Let_def split: option.splits)

lemma StartOTLP_result:
  "\<exists>logged (h :: TracerProvider).
     fst (StartOTLP env c) = logged @ (if start_succeeds env then [NewTracerProvider h] else []) \<and>
     filter is_NewTracerProvider logged = [] \<and> filter is_GoSupervisor logged = [] \<and>
     fst (snd (StartOTLP env c)) =
       (if start_succeeds env then Some \<lparr>tracerProvider = h\<rparr> else None) \<and>
     (snd (snd (StartOTLP env c)) = None \<longleftrightarrow> start_succeeds env)"
  by (cases "exporter_err env"; cases "resource_err env")
     (auto simp: StartOTLP_def start_succeeds_def Let_def split: error.splits)

lemma StartWithContext_started:
  "state w = started \<Longrightarrow>
     StartWithContext ctx opts env w = w\<lparr>conf := fold (\<lambda>opt c. opt c) opts (conf w)\<rparr>"
  by (simp add: StartWithContext_def Let_def)

lemma state_StartWithContext: "state (StartWithContext ctx opts env w) = started"
  by (simp add: StartWithContext_def Let_def split: prod.splits option.splits error.splits)

lemma StartWithContext_not_started:
  assumes "state w \<noteq> started"
  shows "supervisors (StartWithContext ctx opts env w) = supervisors w @ [ctx] \<and>
     supervisors_launched (StartWithContext ctx opts env w) = supervisors_launched w + 1 \<and>
     pipelines_built (StartWithContext ctx opts env w) =
       pipelines_built w + (if start_succeeds env then 1 else 0) \<and>
     (otlp (StartWithContext ctx opts env w) \<noteq> None \<longleftrightarrow> start_succeeds env)"
proof -
  let ?c = "fold (\<lambda>opt c. opt c) opts (conf w)"
  obtain logged and h :: TracerProvider where r:
    "fst (StartOTLP env ?c) = logged @ (if start_succeeds env then [NewTracerProvider h] else [])"
    "filter is_NewTracerProvider logged = []" "filter is_GoSupervisor logged = []"
    "fst (snd (StartOTLP env ?c)) = (if start_succeeds env then Some \<lparr>tracerProvider = h\<rparr> else None)"
    "snd (snd (StartOTLP env ?c)) = None \<longleftrightarrow> start_succeeds env"
    using StartOTLP_result [of env ?c] by (elim exE conjE) (rule that, assumption+)
  show ?thesis
  proof (cases "start_succeeds env")
    case True
    have s: "StartOTLP env ?c = (logged @ [NewTracerProvider h], Some \<lparr>tracerProvider = h\<rparr>, None)"
      using r True by (cases "StartOTLP env ?c") simp
    show ?thesis
      using assms r(2) r(3) True
      by (simp add: StartWithContext_def Let_def s pipelines_built_def supervisors_launched_def)
  next
    case False
    then obtain msg where s: "StartOTLP env ?c = (logged, None, Some (Error msg))"
      using r by (cases "StartOTLP env ?c"; cases "snd (snd (StartOTLP env ?c))")
        (auto intro: error.exhaust)
    show ?thesis
      using assms r(2) r(3) False
      by (simp add: StartWithContext_def Let_def s pipelines_built_def supervisors_launched_def)
  qed
qed


lemma step_keeps_stopped:
  "state w = stopped \<Longrightarrow> \<not> is_start a \<Longrightarrow> step a w = Some w' \<Longrightarrow> state w' = stopped"
  by (cases a)
     (auto simp: Stop_def deliver_signal_def cancel_def supervisor_interrupt_def
        supervisor_signal_def supervisor_done_def state_shutdown
        split: if_splits cancellation.splits)

lemma run_keeps_stopped:
  "state w = stopped \<Longrightarrow> list_all (\<lambda>a. \<not> is_start a) as \<Longrightarrow> run as w = Some w' \<Longrightarrow>
     state w' = stopped"
proof (induction as arbitrary: w)
  case Nil
  then show ?case by simp
next
  case (Cons a as)
  from Cons.prems obtain w1 where w1: "step a w = Some w1" "run as w1 = Some w'"
    by (auto split: option.splits)
  have "state w1 = stopped"
    using step_keeps_stopped [OF Cons.prems(1) _ w1(1)] Cons.prems(2) by simp
  then show ?case using Cons.IH [OF _ _ w1(2)] Cons.prems(2) by simp
qed

lemma run_append: "run (as @ bs) w = (case run as w of None \<Rightarrow> None | Some w' \<Rightarrow> run bs w')"
  by (induction as arbitrary: w) (auto split: option.splits)

section \<open>Claims about the lifecycle\<close>

section \<open>Claims about the lifecycle\<close>

text \<open>
  C2 (as amended). Once the state is \<open>stopped\<close> it stays \<open>stopped\<close> under every step
  that is not a call of start (a call of stop, the delivery of a signal, a cancellation,
  a step of a supervisor), and so along every run of such steps. A call of start in the
  state \<open>stopped\<close> is not refused: it sets the state to \<open>started\<close> again, launches one
  more supervisor, and attempts the construction of a pipeline once more, which builds a
  new pipeline exactly when the construction succeeds.
\<close>

theorem stopped_until_next_start:
  "(state w = stopped \<and> \<not> is_start a \<and> step a w = Some w' \<longrightarrow> state w' = stopped) \<and>
   (state w = stopped \<and> list_all (\<lambda>a. \<not> is_start a) as \<and> run as w = Some w'' \<longrightarrow>
      state w'' = stopped) \<and>
   (state w = stopped \<longrightarrow>
      state (StartWithContext ctx opts env w) = started \<and>
      supervisors (StartWithContext ctx opts env w) = supervisors w @ [ctx] \<and>
      supervisors_launched (StartWithContext ctx opts env w) = supervisors_launched w + 1 \<and>
      pipelines_built (StartWithContext ctx opts env w) =
        pipelines_built w + (if start_succeeds env then 1 else 0) \<and>
      (otlp (StartWithContext ctx opts env w) \<noteq> None \<longleftrightarrow> start_succeeds env))"
proof -
  have r: "state w = stopped \<Longrightarrow>
      supervisors (StartWithContext ctx opts env w) = supervisors w @ [ctx] \<and>
      supervisors_launched (StartWithContext ctx opts env w) = supervisors_launched w + 1 \<and>
      pipelines_built (StartWithContext ctx opts env w) =
        pipelines_built w + (if start_succeeds env then 1 else 0) \<and>
      (otlp (StartWithContext ctx opts env w) \<noteq> None \<longleftrightarrow> start_succeeds env)"
    by (rule StartWithContext_not_started) simp
  show ?thesis
    using step_keeps_stopped [of w a w'] run_keeps_stopped [of w as w'']
      state_StartWithContext [of ctx opts env w] r
    by blast
qed

lemma run_start_stop:
  "\<exists>w. run [CallStart Background [] good_start, CallStop quiet_stop] init_world = Some w \<and>
     state w = stopped \<and> supervisors w = [Background] \<and> signalChan w = 0 \<and>
     supervisors_launched w = 1"
  by (simp add: StartWithContext_def Stop_def shutdown_def IsRunning_def init_world_def
      SetOtelEndpoint_def StartOTLP_def good_start_def HasPrefix_def OTLPDefaultEndpoint_def
      Let_def supervisors_launched_def SetTracerProvider_def OTLP_shutdown_def quiet_stop_def)

theorem stopped_until_next_start_witness:
  "map_option state
     (run [CallStart Background [] good_start, CallStop quiet_stop, DeliverSignal] init_world) =
     Some stopped \<and>
   map_option state
     (run [CallStart Background [] good_start, CallStop quiet_stop,
           DeliverSignal, SupervisorSignal 0 failing_stop] init_world) = Some stopped \<and>
   map_option state
     (run [CallStart Background [] good_start, CallStop quiet_stop,
           CallStart Background [] good_start] init_world) = Some started \<and>
   map_option supervisors_launched
     (run [CallStart Background [] good_start, CallStop quiet_stop,
           CallStart Background [] good_start] init_world) = Some 2"
proof -
  obtain w where w: "run [CallStart Background [] good_start, CallStop quiet_stop] init_world = Some w"
    "state w = stopped" "supervisors w = [Background]" "signalChan w = 0"
    "supervisors_launched w = 1"
    using run_start_stop by (elim exE conjE) (rule that, assumption+)
  have s1: "step DeliverSignal w = Some (deliver_signal w)" by simp
  obtain w' where w': "run [DeliverSignal, SupervisorSignal 0 failing_stop] w = Some w'"
    using w(3) w(4) by (simp add: deliver_signal_def supervisor_signal_def)
  have l: "list_all (\<lambda>a. \<not> is_start a) [DeliverSignal, SupervisorSignal 0 failing_stop]"
    by simp
  have n: "\<not> is_start DeliverSignal" by simp
  note inst = stopped_until_next_start
    [of w DeliverSignal "deliver_signal w" "[DeliverSignal, SupervisorSignal 0 failing_stop]" w'
      Background "[]" good_start]
  from inst w(2) n s1 have a: "state (deliver_signal w) = stopped" by blast
  from inst w(2) l w' have b: "state w' = stopped" by blast
  from inst w(2) have c: "state (StartWithContext Background [] good_start w) = started"
    "supervisors_launched (StartWithContext Background [] good_start w) =
       supervisors_launched w + 1"
    by blast+
  have r1: "run ([CallStart Background [] good_start, CallStop quiet_stop] @ [DeliverSignal])
      init_world = run [DeliverSignal] w"
    by (simp only: run_append w(1) option.case)
  have r2: "run ([CallStart Background [] good_start, CallStop quiet_stop] @
      [DeliverSignal, SupervisorSignal 0 failing_stop]) init_world = Some w'"
    by (simp only: run_append w(1) w' option.case)
  have r3: "run ([CallStart Background [] good_start, CallStop quiet_stop] @
      [CallStart Background [] good_start]) init_world =
      run [CallStart Background [] good_start] w"
    by (simp only: run_append w(1) option.case)
  show ?thesis using a b c w(5) r1 r2 r3 by simp
qed

text \<open>
  C2 as stated fails: start, stop, start leaves the state \<open>started\<close>, after \<open>stopped\<close>.
\<close>

theorem restart_counterexample:
  "map_option state
     (run [CallStart Background [] good_start, CallStop quiet_stop] init_world) = Some stopped \<and>
   map_option state
     (run [CallStart Background [] good_start, CallStop quiet_stop,
           CallStart Background [] good_start] init_world) = Some started"
proof -
  obtain w where w: "run [CallStart Background [] good_start, CallStop quiet_stop] init_world = Some w"
    "state w = stopped"
    using run_start_stop by (elim exE conjE) (rule that, assumption+)
  have "run ([CallStart Background [] good_start, CallStop quiet_stop] @
      [CallStart Background [] good_start]) init_world =
      run [CallStart Background [] good_start] w"
    by (simp only: run_append w(1) option.case)
  also have "\<dots> = Some (StartWithContext Background [] good_start w)"
    by simp
  finally show ?thesis using w by (simp add: state_StartWithContext)
qed


lemma init_world_counts:
  "state init_world = idle \<and> pipelines_built init_world = 0 \<and>
   supervisors_launched init_world = 0 \<and> supervisors init_world = [] \<and>
   otlp init_world = None \<and> flushes init_world = 0"
  by (simp add: init_world_def SetOtelEndpoint_def pipelines_built_def supervisors_launched_def
      flushes_def)

text \<open>
  C5 (as amended). A call of start in the state \<open>started\<close> changes the configuration by
  its options and nothing else: it builds no pipeline and launches no supervisor. Two
  calls of start in sequence, from a state other than \<open>started\<close>, leave the state
  \<open>started\<close> with exactly one supervisor launched, and with exactly one pipeline built if
  the construction of the first call succeeded, none if it failed.
\<close>

theorem start_twice:
  "(state w = started \<longrightarrow>
      StartWithContext ctx opts env w = w\<lparr>conf := fold (\<lambda>opt c. opt c) opts (conf w)\<rparr> \<and>
      pipelines_built (StartWithContext ctx opts env w) = pipelines_built w \<and>
      supervisors_launched (StartWithContext ctx opts env w) = supervisors_launched w \<and>
      supervisors (StartWithContext ctx opts env w) = supervisors w \<and>
      otlp (StartWithContext ctx opts env w) = otlp w) \<and>
   (state w \<noteq> started \<longrightarrow>
      state (StartWithContext ctx' opts' env' (StartWithContext ctx opts env w)) = started \<and>
      supervisors_launched (StartWithContext ctx' opts' env' (StartWithContext ctx opts env w)) =
        supervisors_launched w + 1 \<and>
      supervisors (StartWithContext ctx' opts' env' (StartWithContext ctx opts env w)) =
        supervisors w @ [ctx] \<and>
      pipelines_built (StartWithContext ctx' opts' env' (StartWithContext ctx opts env w)) =
        pipelines_built w + (if start_succeeds env then 1 else 0) \<and>
      (otlp (StartWithContext ctx' opts' env' (StartWithContext ctx opts env w)) \<noteq> None \<longleftrightarrow>
         start_succeeds env))"
proof -
  have a: "state w = started \<Longrightarrow>
      StartWithContext ctx opts env w = w\<lparr>conf := fold (\<lambda>opt c. opt c) opts (conf w)\<rparr>"
    by (rule StartWithContext_started)
  let ?w1 = "StartWithContext ctx opts env w"
  have s1: "state ?w1 = started" by (rule state_StartWithContext)
  have b: "StartWithContext ctx' opts' env' ?w1 =
      ?w1\<lparr>conf := fold (\<lambda>opt c. opt c) opts' (conf ?w1)\<rparr>"
    by (rule StartWithContext_started [OF s1])
  have c: "state w \<noteq> started \<Longrightarrow>
      supervisors ?w1 = supervisors w @ [ctx] \<and>
      supervisors_launched ?w1 = supervisors_launched w + 1 \<and>
      pipelines_built ?w1 = pipelines_built w + (if start_succeeds env then 1 else 0) \<and>
      (otlp ?w1 \<noteq> None \<longleftrightarrow> start_succeeds env)"
    by (rule StartWithContext_not_started)
  have d: "state (StartWithContext ctx' opts' env' ?w1) = started"
    by (rule state_StartWithContext)
  have e: "supervisors_launched (StartWithContext ctx' opts' env' ?w1) = supervisors_launched ?w1"
    "supervisors (StartWithContext ctx' opts' env' ?w1) = supervisors ?w1"
    "pipelines_built (StartWithContext ctx' opts' env' ?w1) = pipelines_built ?w1"
    "otlp (StartWithContext ctx' opts' env' ?w1) = otlp ?w1"
    by (simp_all add: b supervisors_launched_def pipelines_built_def)
  have f: "state w = started \<Longrightarrow>
      pipelines_built ?w1 = pipelines_built w \<and>
      supervisors_launched ?w1 = supervisors_launched w \<and>
      supervisors ?w1 = supervisors w \<and> otlp ?w1 = otlp w"
    by (simp add: a supervisors_launched_def pipelines_built_def)
  have p1: "state w = started \<longrightarrow>
      StartWithContext ctx opts env w = w\<lparr>conf := fold (\<lambda>opt c. opt c) opts (conf w)\<rparr> \<and>
      pipelines_built ?w1 = pipelines_built w \<and>
      supervisors_launched ?w1 = supervisors_launched w \<and>
      supervisors ?w1 = supervisors w \<and> otlp ?w1 = otlp w"
    using a f by blast
  have p2: "state w \<noteq> started \<longrightarrow>
      state (StartWithContext ctx' opts' env' ?w1) = started \<and>
      supervisors_launched (StartWithContext ctx' opts' env' ?w1) = supervisors_launched w + 1 \<and>
      supervisors (StartWithContext ctx' opts' env' ?w1) = supervisors w @ [ctx] \<and>
      pipelines_built (StartWithContext ctx' opts' env' ?w1) =
        pipelines_built w + (if start_succeeds env then 1 else 0) \<and>
      (otlp (StartWithContext ctx' opts' env' ?w1) \<noteq> None \<longleftrightarrow> start_succeeds env)"
    unfolding e using c d by blast
  show ?thesis using p1 p2 by (rule conjI)
qed

theorem start_twice_witness:
  "state (StartWithContext Background [] good_start
       (StartWithContext Background [] good_start init_world)) = started \<and>
   pipelines_built (StartWithContext Background [] good_start
       (StartWithContext Background [] good_start init_world)) = 1 \<and>
   supervisors_launched (StartWithContext Background [] good_start
       (StartWithContext Background [] good_start init_world)) = 1 \<and>
   supervisors (StartWithContext Background [] good_start
       (StartWithContext Background [] good_start init_world)) = [Background]"
proof -
  have i: "state init_world \<noteq> started" using init_world_counts by simp
  have g: "start_succeeds good_start" by (simp add: start_succeeds_def good_start_def)
  from start_twice [of init_world Background "[]" good_start Background "[]" good_start] i
  show ?thesis using init_world_counts g by simp
qed

text \<open>
  C5 as stated fails where the resource of the pipeline cannot be built: \<open>StartOTLP\<close>
  returns its error, and two calls of start leave the state \<open>started\<close> with no pipeline
  instance.
\<close>

theorem start_failure_counterexample:
  "state (StartWithContext Background [] failing_start
       (StartWithContext Background [] failing_start init_world)) = started \<and>
   pipelines_built (StartWithContext Background [] failing_start
       (StartWithContext Background [] failing_start init_world)) \<noteq> 1 \<and>
   otlp (StartWithContext Background [] failing_start
       (StartWithContext Background [] failing_start init_world)) = None"
proof -
  have i: "state init_world \<noteq> started" using init_world_counts by simp
  have g: "\<not> start_succeeds failing_start"
    by (simp add: start_succeeds_def failing_start_def)
  have s: "state (StartWithContext Background [] failing_start init_world) = started"
    by (rule state_StartWithContext)
  let ?w1 = "StartWithContext Background [] failing_start init_world"
  let ?w2 = "StartWithContext Background [] failing_start ?w1"
  from StartWithContext_not_started [OF i, of Background "[]" failing_start]
  have one: "pipelines_built ?w1 = 0" "otlp ?w1 = None"
    using init_world_counts g by simp_all
  have eq: "?w2 = ?w1\<lparr>conf := fold (\<lambda>opt c. opt c) [] (conf ?w1)\<rparr>"
    by (rule StartWithContext_started [OF s])
  have two: "pipelines_built ?w2 = pipelines_built ?w1" "otlp ?w2 = otlp ?w1"
    by (simp_all add: eq pipelines_built_def)
  have "state ?w2 = started" by (rule state_StartWithContext)
  then show ?thesis by (simp only: two one) simp
qed

text \<open>
  C6. \<open>shutdown\<close> changes nothing when the state is not \<open>started\<close>. Otherwise the state
  becomes \<open>stopped\<close>, whatever the flush and the release of the pipeline answer, after
  these effects on a pipeline handle that is present, in this order: the flush, a log line
  if the flush failed, the release, a log line if the release failed (and no effect when
  the construction of the pipeline had failed and there is no handle). The function has
  no error result. A second \<open>shutdown\<close> changes nothing: the run holds one flush.
\<close>

theorem shutdown_flush_release_stop:
  "(state w \<noteq> started \<longrightarrow> shutdown env w = w) \<and>
   (state w = started \<longrightarrow>
      state (shutdown env w) = stopped \<and>
      effects (shutdown env w) =
        effects w @
        (case otlp w of
           None \<Rightarrow> []
         | Some h \<Rightarrow>
             [ForceFlush] @
             (case flush_err env of Some (Error e) \<Rightarrow> [LogError e] | None \<Rightarrow> []) @
             [ProviderShutdown] @
             (case release_err env of Some (Error e) \<Rightarrow> [LogError e] | None \<Rightarrow> [])) \<and>
      shutdown env' (shutdown env w) = shutdown env w \<and>
      flushes (shutdown env' (shutdown env w)) =
        flushes w + (if otlp w = None then 0 else 1))"
proof -
  have a: "state w \<noteq> started \<Longrightarrow> shutdown env w = w"
    by (rule shutdown_not_started)
  have b: "state w = started \<Longrightarrow> state (shutdown env w) = stopped"
    by (simp add: state_shutdown)
  have c: "state w = started \<Longrightarrow> shutdown env' (shutdown env w) = shutdown env w"
    by (rule shutdown_not_started) (simp add: state_shutdown)
  have d: "state w = started \<Longrightarrow>
      effects (shutdown env w) =
        effects w @
        (case otlp w of
           None \<Rightarrow> []
         | Some h \<Rightarrow>
             [ForceFlush] @
             (case flush_err env of Some (Error e) \<Rightarrow> [LogError e] | None \<Rightarrow> []) @
             [ProviderShutdown] @
             (case release_err env of Some (Error e) \<Rightarrow> [LogError e] | None \<Rightarrow> []))"
    by (simp add: effects_shutdown OTLP_shutdown_def split: option.splits)
  have e: "state w = started \<Longrightarrow>
      flushes (shutdown env w) = flushes w + (if otlp w = None then 0 else 1)"
    by (simp add: flushes_def d split: option.splits error.splits)
  show ?thesis using a b c d e by simp
qed

theorem shutdown_flush_release_stop_witness:
  "state (shutdown failing_stop (StartWithContext Background [] good_start init_world)) = stopped \<and>
   flushes (shutdown quiet_stop
     (shutdown failing_stop (StartWithContext Background [] good_start init_world))) = 1 \<and>
   shutdown quiet_stop init_world = init_world"
proof -
  let ?w = "StartWithContext Background [] good_start init_world"
  have s: "state ?w = started" by (rule state_StartWithContext)
  have i: "state init_world \<noteq> started" using init_world_counts by simp
  have g: "start_succeeds good_start" by (simp add: start_succeeds_def good_start_def)
  have o: "otlp ?w \<noteq> None"
    using StartWithContext_not_started [OF i, of Background "[]" good_start] g by simp
  have f: "flushes ?w = 0"
    by (simp add: flushes_def StartWithContext_def StartOTLP_def good_start_def Let_def
        init_world_def SetOtelEndpoint_def OTLPDefaultEndpoint_def HasPrefix_def)
  from shutdown_flush_release_stop [of ?w failing_stop quiet_stop] s
  have r: "state (shutdown failing_stop ?w) = stopped"
    "flushes (shutdown quiet_stop (shutdown failing_stop ?w)) =
       flushes ?w + (if otlp ?w = None then 0 else 1)"
    by blast+
  have "state (shutdown failing_stop ?w) = stopped \<and>
      flushes (shutdown quiet_stop (shutdown failing_stop ?w)) = 1"
    using r(1) o f by (simp only: r(2)) simp
  moreover from shutdown_flush_release_stop [of init_world quiet_stop quiet_stop] i
  have "shutdown quiet_stop init_world = init_world" by blast
  ultimately show ?thesis by blast
qed

section \<open>Deriving the trace identifier from the request id\<close>

text \<open>
  \<open>base64.StdEncoding.DecodeString\<close> of the Go standard library. It decodes quantum by
  quantum (four characters give three bytes, line breaks are skipped, \<open>=\<close> pads the last
  quantum) and returns, with the error, the bytes decoded before the input went wrong.
  \<open>decodeQuantum\<close> returns the bytes of one quantum, the input left and whether the input
  is corrupt; the sextets read so far are its first argument. The library's fast paths
  for eight and four clean characters decode the same bytes and are left out.
\<close>

definition decodeMap :: "char \<Rightarrow> nat option" where
  "decodeMap c =
     (let n = of_char c :: nat in
      if 65 \<le> n \<and> n \<le> 90 then Some (n - 65)
      else if 97 \<le> n \<and> n \<le> 122 then Some (n - 71)
      else if 48 \<le> n \<and> n \<le> 57 then Some (n + 4)
      else if c = CHR ''+'' then Some 62
      else if c = CHR ''/'' then Some 63
      else None)"

definition is_newline :: "char \<Rightarrow> bool" where
  "is_newline c \<longleftrightarrow> c = CHR 0x0A \<or> c = CHR 0x0D"

fun skip_newlines :: "string \<Rightarrow> string" where
  "skip_newlines [] = []"
| "skip_newlines (c # cs) = (if is_newline c then skip_newlines cs else c # cs)"

definition quantum_bytes :: "nat list \<Rightarrow> byte list" where
  "quantum_bytes dbuf =
     (let d = dbuf @ replicate (4 - length dbuf) 0;
          val = d ! 0 * 2 ^ 18 + d ! 1 * 2 ^ 12 + d ! 2 * 2 ^ 6 + d ! 3
      in take (length dbuf - 1)
           [of_nat (val div 2 ^ 16), of_nat (val div 2 ^ 8), of_nat val])"

definition padded_end :: "nat list \<Rightarrow> string \<Rightarrow> byte list \<times> string \<times> bool" where
  "padded_end dbuf cs =
     (let rest = skip_newlines cs in (quantum_bytes dbuf, rest, rest \<noteq> []))"

fun decodeQuantum :: "nat list \<Rightarrow> string \<Rightarrow> byte list \<times> string \<times> bool" where
  "decodeQuantum dbuf [] = ([], [], dbuf \<noteq> [])"
| "decodeQuantum dbuf (c # cs) =
     (case decodeMap c of
        Some out \<Rightarrow>
          (if length dbuf = 3 then (quantum_bytes (dbuf @ [out]), cs, False)
           else decodeQuantum (dbuf @ [out]) cs)
      | None \<Rightarrow>
          if is_newline c then decodeQuantum dbuf cs
          else if c \<noteq> CHR ''='' then ([], [], True)
          else if length dbuf < 2 then ([], [], True)
          else if length dbuf = 2 then
            (case skip_newlines cs of
               [] \<Rightarrow> ([], [], True)
             | c1 # cs2 \<Rightarrow>
                 if c1 \<noteq> CHR ''='' then ([], [], True) else padded_end dbuf cs2)
          else padded_end dbuf cs)"

lemma skip_newlines_length: "length (skip_newlines cs) \<le> length cs"
  by (induction cs) auto

lemma padded_end_length: "padded_end dbuf cs = (bs, rest, err) \<Longrightarrow> length rest \<le> length cs"
  using skip_newlines_length [of cs] by (auto simp: padded_end_def Let_def)

lemma decodeQuantum_length:
  "decodeQuantum dbuf src = (bs, rest, err) \<Longrightarrow> length rest \<le> length src"
proof (induction dbuf src arbitrary: bs rest err rule: decodeQuantum.induct)
  case (1 dbuf)
  then show ?case by simp
next
  case (2 dbuf c cs)
  show ?case
  proof (cases "decodeMap c")
    case None
    show ?thesis
    proof (cases "is_newline c")
      case True
      with None 2 show ?thesis by (auto simp: le_Suc_eq)
    next
      case False
      show ?thesis
      proof (cases "skip_newlines cs")
        case Nil
        with None False "2.prems" show ?thesis
          by (auto split: if_splits dest!: padded_end_length)
      next
        case (Cons c1 cs2)
        then have "length cs2 \<le> length cs"
          using skip_newlines_length [of cs] by simp
        with Cons None False "2.prems" show ?thesis
          by (auto split: if_splits dest!: padded_end_length)
      qed
    qed
  next
    case (Some out)
    with 2 show ?thesis by (auto split: if_splits simp: le_Suc_eq)
  qed
qed

lemma decodeQuantum_shorter:
  assumes "src \<noteq> []" and "decodeQuantum dbuf src = (bs, rest, err)"
  shows "length rest < length src"
proof -
  obtain c cs where src: "src = c # cs" using assms(1) by (cases src) auto
  have "length rest \<le> length cs"
  proof (cases "decodeMap c")
    case None
    show ?thesis
    proof (cases "skip_newlines cs")
      case Nil
      with None assms(2) show ?thesis
        unfolding src
        by (auto split: if_splits dest!: padded_end_length decodeQuantum_length)
    next
      case (Cons c1 cs2)
      then have "length cs2 \<le> length cs"
        using skip_newlines_length [of cs] by simp
      with Cons None assms(2) show ?thesis
        unfolding src
        by (auto split: if_splits dest!: padded_end_length decodeQuantum_length)
    qed
  next
    case (Some out)
    with assms(2) show ?thesis
      unfolding src by (auto split: if_splits dest!: decodeQuantum_length)
  qed
  then show ?thesis by (simp add: src)
qed

function Decode :: "string \<Rightarrow> byte list \<times> bool" where
  "Decode src =
     (if src = [] then ([], False)
      else
        (case decodeQuantum [] src of
           (bs, rest, err) \<Rightarrow>
             if err then (bs, True)
             else (case Decode rest of (bs', err') \<Rightarrow> (bs @ bs', err'))))"
  by pat_completeness auto
termination
  by (relation "measure length") (auto dest: decodeQuantum_shorter [OF _ sym])


declare Decode.simps [simp del]

definition DecodeString :: "string \<Rightarrow> byte list \<times> error option" where
  "DecodeString s =
     (case Decode s of
        (dbuf, err) \<Rightarrow> (dbuf, if err then Some (Error ''illegal base64 data'') else None))"

text \<open>
  \<open>fmt.Sprintf("%032x", data)\<close>: two lower-case hex digits for every byte, padded with
  zeros on the left to the width 32; a longer string is not cut.
\<close>

definition hexdigit :: "nat \<Rightarrow> char" where
  "hexdigit n = (if n < 10 then char_of (48 + n) else char_of (87 + n))"

definition hex_byte :: "byte \<Rightarrow> string" where
  "hex_byte b = [hexdigit (unat b div 16), hexdigit (unat b mod 16)]"

definition Sprintf_032x :: "byte list \<Rightarrow> string" where
  "Sprintf_032x data =
     (let h = concat (map hex_byte data) in replicate (32 - length h) (CHR ''0'') @ h)"

text \<open>
  \<open>trace.TraceIDFromHex\<close> of the tracing library: the string must have 32 characters,
  all of them lower-case hex digits, and must not denote zero; with an error the
  identifier returned is all zero.
\<close>

definition fromHexChar :: "char \<Rightarrow> nat option" where
  "fromHexChar c =
     (let n = of_char c :: nat in
      if 48 \<le> n \<and> n \<le> 57 then Some (n - 48)
      else if 97 \<le> n \<and> n \<le> 102 then Some (n - 87)
      else None)"

fun hex_decode :: "string \<Rightarrow> byte list option" where
  "hex_decode [] = Some []"
| "hex_decode [c] = None"
| "hex_decode (c1 # c2 # cs) =
     (case fromHexChar c1 of
        None \<Rightarrow> None
      | Some a \<Rightarrow>
          (case fromHexChar c2 of
             None \<Rightarrow> None
           | Some b \<Rightarrow>
               (case hex_decode cs of
                  None \<Rightarrow> None
                | Some bs \<Rightarrow> Some (of_nat (a * 16 + b) # bs))))"

definition TraceID_IsValid :: "byte list \<Rightarrow> bool" where
  "TraceID_IsValid tid \<longleftrightarrow> \<not> list_all (\<lambda>b. b = 0) tid"

definition TraceIDFromHex :: "string \<Rightarrow> byte list \<times> error option" where
  "TraceIDFromHex h =
     (let t = replicate 16 0 in
      if length h \<noteq> 32
      then (t, Some (Error ''hex encoded trace-id must have length equals to 32''))
      else
        (case hex_decode h of
           None \<Rightarrow>
             (t, Some (Error ''trace-id can only contain [0-9a-f] characters, all lowercase''))
         | Some bs \<Rightarrow>
             if \<not> TraceID_IsValid bs
             then (bs, Some (Error ''trace-id can't be all zero''))
             else (bs, None)))"


lemma fromHexChar_hexdigit: "n < 16 \<Longrightarrow> fromHexChar (hexdigit n) = Some n"
  by (auto simp: fromHexChar_def hexdigit_def)

lemma hex_decode_hex_byte: "hex_decode (hex_byte b @ cs) = map_option ((#) b) (hex_decode cs)"
proof -
  have "unat b < 256" using unsigned_less [of b, where ?'a = nat] by simp
  then have d: "unat b div 16 < 16" by simp
  have m: "unat b mod 16 < 16" by simp
  have "unat b div 16 * 16 + unat b mod 16 = unat b" by simp
  then have "(of_nat (unat b div 16 * 16 + unat b mod 16) :: byte) = b"
    by (simp only: of_nat_unat ucast_id)
  then show ?thesis
    by (cases "hex_decode cs")
       (simp_all add: hex_byte_def fromHexChar_hexdigit [OF d] fromHexChar_hexdigit [OF m])
qed

lemma hex_decode_hex: "hex_decode (concat (map hex_byte data)) = Some data"
  by (induction data) (simp_all add: hex_decode_hex_byte)

lemma length_hex: "length (concat (map hex_byte data)) = 2 * length data"
  by (induction data) (simp_all add: hex_byte_def)

lemma hex_decode_zeros:
  "hex_decode (replicate (2 * k) (CHR ''0'') @ cs) =
     map_option ((@) (replicate k 0)) (hex_decode cs)"
proof (induction k)
  case 0
  show ?case by (cases "hex_decode cs") simp_all
next
  case (Suc k)
  show ?case
    by (cases "hex_decode cs") (simp_all add: Suc fromHexChar_def)
qed

lemma TraceIDFromHex_Sprintf:
  "fst (TraceIDFromHex (Sprintf_032x data)) =
     (if length data \<le> 16 then replicate (16 - length data) 0 @ data else replicate 16 0)"
proof (cases "length data \<le> 16")
  case True
  then have e: "32 - 2 * length data = 2 * (16 - length data)" by simp
  have h: "hex_decode (Sprintf_032x data) = Some (replicate (16 - length data) 0 @ data)"
    by (simp add: Sprintf_032x_def Let_def length_hex e hex_decode_zeros hex_decode_hex
        del: replicate_add mult_2)
  have l: "length (Sprintf_032x data) = 32"
    using True by (simp add: Sprintf_032x_def Let_def length_hex)
  show ?thesis using True by (simp add: TraceIDFromHex_def Let_def h l)
next
  case False
  then have "length (Sprintf_032x data) \<noteq> 32"
    by (simp add: Sprintf_032x_def Let_def length_hex)
  with False show ?thesis by (simp add: TraceIDFromHex_def Let_def)
qed

section \<open>Recording\<close>

text \<open>
  The recording functions read the lifecycle state and the configuration of the \<open>world\<close>.
  What they take from outside is an argument: the identifiers that the tracer's generator
  would hand out next (\<open>id_source\<close>), the current time, and the stack captured at the call.

  A type assertion \<open>v.(string)\<close> on a value that is no string panics: the functions return
  \<open>panic + result\<close>.
\<close>

definition Scout :: string where
  "Scout = ''scout''"

definition RequestID :: string where
  "RequestID = Scout @ ''RequestID''"

definition SessionSecureID :: string where
  "SessionSecureID = Scout @ ''SessionSecureID''"

definition consumeErrorWorkerStopped :: string where
  "consumeErrorWorkerStopped = ''scout worker stopped''"

definition ProjectIDAttribute :: string where
  "ProjectIDAttribute = ''scout.project_id''"

definition SessionIDAttribute :: string where
  "SessionIDAttribute = ''scout.session_id''"

definition RequestIDAttribute :: string where
  "RequestIDAttribute = ''scout.trace_id''"

definition ScopedKey :: "string \<Rightarrow> string option \<Rightarrow> string" where
  "ScopedKey key separator =
     (let sep = (case separator of Some s \<Rightarrow> s | None \<Rightarrow> ''.'') in Scout @ sep @ key)"

definition WithValue :: "Context \<Rightarrow> ctx_key \<Rightarrow> any \<Rightarrow> Context" where
  "WithValue ctx key val = ctx\<lparr>ctx_Value := (ctx_Value ctx)(key \<mapsto> val)\<rparr>"

definition InterceptRequestWithContext :: "Context \<Rightarrow> string \<Rightarrow> Context" where
  "InterceptRequestWithContext ctx header =
     (let ids = Split header (CHR ''/'') in
      if length ids < 2 then ctx
      else WithValue (WithValue ctx (ContextKey SessionSecureID) (StringVal (ids ! 0)))
             (ContextKey RequestID) (StringVal (ids ! 1)))"

datatype panic = TypeAssertionPanic

definition read_string :: "Context \<Rightarrow> ctx_key \<Rightarrow> string \<Rightarrow> panic + string" where
  "read_string ctx key current =
     (case ctx_Value ctx key of
        None \<Rightarrow> Inr current
      | Some NilVal \<Rightarrow> Inr current
      | Some (StringVal s) \<Rightarrow> Inr s
      | Some OtherVal \<Rightarrow> Inl TypeAssertionPanic)"

definition validateRequest :: "world \<Rightarrow> Context \<Rightarrow> panic + (string \<times> string \<times> error option)" where
  "validateRequest w ctx =
     (if state w = stopped then Inr ([], [], Some (Error consumeErrorWorkerStopped))
      else
        (case read_string ctx (StringKey SessionSecureID) [] of
           Inl p \<Rightarrow> Inl p
         | Inr s1 \<Rightarrow>
        (case read_string ctx (ContextKey SessionSecureID) s1 of
           Inl p \<Rightarrow> Inl p
         | Inr sessionSecureID \<Rightarrow>
        (case read_string ctx (StringKey RequestID) [] of
           Inl p \<Rightarrow> Inl p
         | Inr r1 \<Rightarrow>
        (case read_string ctx (ContextKey RequestID) r1 of
           Inl p \<Rightarrow> Inl p
         | Inr requestID \<Rightarrow> Inr (sessionSecureID, requestID, None))))))"

text \<open>
  Spans and the tracer of the tracing library, as far as the package relies on them.

  The package's \<open>tracer\<close> comes from the global provider. As long as no provider has been
  installed (no start has succeeded yet) it has no delegate: \<open>Start\<close> then generates
  nothing and returns a span that records nothing and carries the span context of the
  context it was given. With a delegate, \<open>Start\<close> is the one of the provider's tracer: it
  takes the trace identifier of the span context in the context when that is valid (not
  all zero) and a generated one otherwise, generates the span identifier, asks the
  provider's sampler, and returns a recording span unless the decision is to drop,
  in which case the span records nothing but carries the identifiers. The kind handed to
  the sampler is the one of the start options; the span stores it validated.

  On a recording span that has not ended, \<open>SetAttributes\<close> sets each key to its latest
  value, \<open>AddEvent\<close> appends an event and \<open>End\<close> (through \<open>EndTrace\<close>) ends the span, which
  passes it to the span processors of the provider; on any other span they do nothing.
  What the processors and the exporter do with an ended span is not modelled.
\<close>

datatype attr_value = StringAttr string | Float64Attr float64

type_synonym KeyValue = "string \<times> attr_value"

datatype SpanStartOption = WithSpanKind SpanKind | WithTimestamp nat

record SpanConfig =
  cfg_SpanKind :: SpanKind
  cfg_Timestamp :: "nat option"

record Span =
  span_name :: string
  span_context :: SpanContext
  span_kind :: SpanKind
  span_start :: "nat option"
  span_attributes :: "KeyValue list"
  span_events :: "(string \<times> KeyValue list) list"
  span_ended :: bool
  span_recording :: bool

record id_source =
  new_TraceID :: "byte list"
  new_SpanID :: "byte list"

definition WithTraceID :: "SpanContext \<Rightarrow> byte list \<Rightarrow> SpanContext" where
  "WithTraceID sc tid = sc\<lparr>sc_TraceID := tid\<rparr>"

definition ContextWithSpanContext :: "Context \<Rightarrow> SpanContext \<Rightarrow> Context" where
  "ContextWithSpanContext ctx sc = ctx\<lparr>ctx_SpanContext := sc\<rparr>"

definition ContextWithSpan :: "Context \<Rightarrow> Span \<Rightarrow> Context" where
  "ContextWithSpan ctx spn = ctx\<lparr>ctx_SpanContext := span_context spn\<rparr>"

fun apply_start_option :: "SpanStartOption \<Rightarrow> SpanConfig \<Rightarrow> SpanConfig" where
  "apply_start_option (WithSpanKind k) cfg = cfg\<lparr>cfg_SpanKind := k\<rparr>"
| "apply_start_option (WithTimestamp t) cfg = cfg\<lparr>cfg_Timestamp := Some t\<rparr>"

definition NewSpanStartConfig :: "SpanStartOption list \<Rightarrow> SpanConfig" where
  "NewSpanStartConfig opts =
     fold apply_start_option opts \<lparr>cfg_SpanKind = SpanKindUnspecified, cfg_Timestamp = None\<rparr>"

definition ValidateSpanKind :: "SpanKind \<Rightarrow> SpanKind" where
  "ValidateSpanKind k =
     (if k = SpanKindInternal \<or> k = SpanKindServer \<or> k = SpanKindClient \<or>
         k = SpanKindProducer \<or> k = SpanKindConsumer
      then k else SpanKindInternal)"

definition nonRecordingSpan :: "SpanContext \<Rightarrow> Span" where
  "nonRecordingSpan sc =
     \<lparr>span_name = [], span_context = sc, span_kind = SpanKindUnspecified, span_start = None,
      span_attributes = [], span_events = [], span_ended = False, span_recording = False\<rparr>"

definition sdk_Start ::
    "TracerProvider \<Rightarrow> id_source \<Rightarrow> Context \<Rightarrow> string \<Rightarrow> SpanStartOption list \<Rightarrow>
       Context \<times> Span" where
  "sdk_Start tp ids ctx name opts =
     (let cfg = NewSpanStartConfig opts;
          psc = SpanContextFromContext ctx;
          tid = (if TraceID_IsValid (sc_TraceID psc) then sc_TraceID psc else new_TraceID ids);
          sid = new_SpanID ids;
          samplingResult =
            ShouldSample (tp_sampler tp)
              \<lparr>sp_ParentContext = ctx, sp_TraceID = tid, sp_Name = name,
               sp_Kind = cfg_SpanKind cfg, sp_Attributes = []\<rparr>;
          sc = \<lparr>sc_TraceID = tid, sc_SpanID = sid, sc_TraceState = Tracestate samplingResult\<rparr>;
          spn = (if Decision samplingResult = Drop then nonRecordingSpan sc
                 else \<lparr>span_name = name, span_context = sc,
                       span_kind = ValidateSpanKind (cfg_SpanKind cfg),
                       span_start = cfg_Timestamp cfg, span_attributes = [],
                       span_events = [], span_ended = False, span_recording = True\<rparr>)
      in (ContextWithSpan ctx spn, spn))"

definition tracer_Start ::
    "TracerProvider option \<Rightarrow> id_source \<Rightarrow> Context \<Rightarrow> string \<Rightarrow> SpanStartOption list \<Rightarrow>
       Context \<times> Span" where
  "tracer_Start delegate ids ctx name opts =
     (case delegate of
        None \<Rightarrow>
          (let spn = nonRecordingSpan (SpanContextFromContext ctx)
           in (ContextWithSpan ctx spn, spn))
      | Some tp \<Rightarrow> sdk_Start tp ids ctx name opts)"

fun set_attribute :: "KeyValue \<Rightarrow> KeyValue list \<Rightarrow> KeyValue list" where
  "set_attribute kv [] = [kv]"
| "set_attribute kv (x # xs) = (if fst x = fst kv then kv # xs else x # set_attribute kv xs)"

definition IsRecording :: "Span \<Rightarrow> bool" where
  "IsRecording spn \<longleftrightarrow> span_recording spn \<and> \<not> span_ended spn"

definition SetAttributes :: "Span \<Rightarrow> KeyValue list \<Rightarrow> Span" where
  "SetAttributes spn kvs =
     (if IsRecording spn
      then spn\<lparr>span_attributes := fold set_attribute kvs (span_attributes spn)\<rparr>
      else spn)"

definition AddEvent :: "Span \<Rightarrow> string \<Rightarrow> KeyValue list \<Rightarrow> Span" where
  "AddEvent spn name attrs =
     (if IsRecording spn then spn\<lparr>span_events := span_events spn @ [(name, attrs)]\<rparr>
      else spn)"

definition StartTraceWithTimestamp ::
    "world \<Rightarrow> id_source \<Rightarrow> Context \<Rightarrow> string \<Rightarrow> nat \<Rightarrow> SpanStartOption list \<Rightarrow>
       KeyValue list \<Rightarrow> panic + (Span \<times> Context)" where
  "StartTraceWithTimestamp w ids ctx name t opts tags =
     (case validateRequest w ctx of
        Inl p \<Rightarrow> Inl p
      | Inr (sessionID, requestID, err) \<Rightarrow>
          (let spanCtx = SpanContextFromContext ctx;
               spanCtx' =
                 (if requestID \<noteq> []
                  then (let data = fst (DecodeString requestID);
                            hex = Sprintf_032x data;
                            tid = fst (TraceIDFromHex hex)
                        in WithTraceID spanCtx tid)
                  else spanCtx);
               opts' = opts @ [WithTimestamp t];
               (ctx', spn) = tracer_Start (tracer_delegate w) ids
                               (ContextWithSpanContext ctx spanCtx') name opts';
               span1 = SetAttributes spn
                         [(ProjectIDAttribute, StringAttr (projectID (conf w))),
                          (SessionIDAttribute, StringAttr sessionID),
                          (RequestIDAttribute, StringAttr requestID)];
               span2 = SetAttributes span1 tags
           in Inr (span2, ctx')))"

definition StartTrace ::
    "world \<Rightarrow> id_source \<Rightarrow> nat \<Rightarrow> Context \<Rightarrow> string \<Rightarrow> KeyValue list \<Rightarrow>
       panic + (Span \<times> Context)" where
  "StartTrace w ids now ctx name tags = StartTraceWithTimestamp w ids ctx name now [] tags"

definition EndTrace :: "Span \<Rightarrow> Span" where
  "EndTrace spn = (if IsRecording spn then spn\<lparr>span_ended := True\<rparr> else spn)"

definition MetricEvent :: string where
  "MetricEvent = ''metric''"

definition MetricEventName :: string where
  "MetricEventName = ''metric.name''"

definition MetricEventValue :: string where
  "MetricEventValue = ''metric.value''"

definition RecordMetric ::
    "world \<Rightarrow> id_source \<Rightarrow> nat \<Rightarrow> Context \<Rightarrow> string \<Rightarrow> float64 \<Rightarrow> KeyValue list \<Rightarrow>
       panic + Span" where
  "RecordMetric w ids now ctx name val tags =
     (case StartTraceWithTimestamp w ids ctx (ScopedKey ''metric'' (Some ''-'')) now
             [WithSpanKind SpanKindClient] tags of
        Inl p \<Rightarrow> Inl p
      | Inr (spn, ctx') \<Rightarrow>
          Inr (EndTrace
                 (AddEvent spn MetricEvent
                    [(MetricEventName, StringAttr name), (MetricEventValue, Float64Attr val)])))"

text \<open>
  An error value, by what \<open>RecordSpanError\<close> asks of it: its message and type name, the
  operation and URL when it is a \<open>*url.Error\<close>, and the type, message and stack trace of
  the first error in its chain that carries a stack trace, if any.
\<close>

record go_error =
  err_message :: string
  err_type :: string
  err_url :: "(string \<times> string) option"
  err_stack :: "(string \<times> string \<times> string) option"

definition ErrorURLAttribute :: string where
  "ErrorURLAttribute = ''URL''"

definition RecordSpanErrorWithStack :: "Span \<Rightarrow> string \<times> string \<times> string \<Rightarrow> Span" where
  "RecordSpanErrorWithStack spn stackErr =
     (case stackErr of
        (ty, msg, stackTrace) \<Rightarrow>
          AddEvent spn ''exception''
            [(''exception.type'', StringAttr ty), (''exception.message'', StringAttr msg),
             (''exception.stacktrace'', StringAttr stackTrace)])"

definition span_RecordError :: "Span \<Rightarrow> go_error \<Rightarrow> string \<Rightarrow> Span" where
  "span_RecordError spn err stack_here =
     AddEvent spn ''exception''
       [(''exception.type'', StringAttr (err_type err)),
        (''exception.message'', StringAttr (err_message err)),
        (''exception.stacktrace'', StringAttr stack_here)]"

definition RecordSpanError :: "Span \<Rightarrow> go_error \<Rightarrow> string \<Rightarrow> KeyValue list \<Rightarrow> Span" where
  "RecordSpanError spn err stack_here tags =
     (let span1 = (case err_url err of
                     Some (op, url) \<Rightarrow>
                       SetAttributes (SetAttributes spn [(''Op'', StringAttr op)])
                         [(ErrorURLAttribute, StringAttr url)]
                   | None \<Rightarrow> spn);
          span2 = SetAttributes span1 tags
      in case err_stack err of
           Some stackErr \<Rightarrow> RecordSpanErrorWithStack span2 stackErr
         | None \<Rightarrow> span_RecordError span2 err stack_here)"

definition RecordError ::
    "world \<Rightarrow> id_source \<Rightarrow> nat \<Rightarrow> string \<Rightarrow> Context \<Rightarrow> go_error \<Rightarrow> KeyValue list \<Rightarrow>
       panic + (Span \<times> Context)" where
  "RecordError w ids now stack_here ctx err tags =
     (case StartTraceWithTimestamp w ids ctx (ScopedKey ''ctx'' (Some ''-'')) now
             [WithSpanKind SpanKindClient] tags of
        Inl p \<Rightarrow> Inl p
      | Inr (spn, ctx') \<Rightarrow> Inr (EndTrace (RecordSpanError spn err stack_here []), ctx'))"

subsection \<open>Example inputs for recording\<close>

definition background :: Context where
  "background =
     \<lparr>ctx_Value = Map.empty,
      ctx_SpanContext =
        \<lparr>sc_TraceID = replicate 16 0, sc_SpanID = replicate 8 0, sc_TraceState = []\<rparr>\<rparr>"

definition fresh_ids :: id_source where
  "fresh_ids = \<lparr>new_TraceID = replicate 16 255, new_SpanID = replicate 8 255\<rparr>"

definition running_world :: world where
  "running_world = StartWithContext Background [WithSamplingRate 1] good_start init_world"

definition stopped_world :: world where
  "stopped_world = shutdown quiet_stop running_world"

definition started_TraceID :: "panic + (Span \<times> Context) \<Rightarrow> byte list option" where
  "started_TraceID r =
     (case r of Inr (spn, ctx') \<Rightarrow> Some (sc_TraceID (span_context spn)) | Inl p \<Rightarrow> None)"

subsection \<open>Lemmas on recording\<close>

lemma validateRequest_stopped:
  "state w = stopped \<Longrightarrow>
     validateRequest w ctx = Inr ([], [], Some (Error consumeErrorWorkerStopped))"
  by (simp add: validateRequest_def)

lemma span_context_SetAttributes [simp]:
  "span_context (SetAttributes spn kvs) = span_context spn"
  by (simp add: SetAttributes_def)

lemma tracer_Start_TraceID:
  "sc_TraceID (span_context (snd (tracer_Start delegate ids ctx name opts))) =
     (case delegate of
        None \<Rightarrow> sc_TraceID (ctx_SpanContext ctx)
      | Some tp \<Rightarrow>
          if TraceID_IsValid (sc_TraceID (ctx_SpanContext ctx))
          then sc_TraceID (ctx_SpanContext ctx)
          else new_TraceID ids)"
  by (cases delegate)
     (simp_all add: tracer_Start_def sdk_Start_def Let_def nonRecordingSpan_def
        SpanContextFromContext_def)

lemma IsValid_padded:
  "TraceID_IsValid (replicate k 0 @ data) \<longleftrightarrow> \<not> list_all (\<lambda>b. b = 0) data"
  by (auto simp: TraceID_IsValid_def list_all_iff)

lemma not_IsValid_zero: "\<not> TraceID_IsValid (replicate k 0)"
  by (simp add: TraceID_IsValid_def list_all_iff)

lemma all_zero_replicate:
  "list_all (\<lambda>b. b = 0) data \<Longrightarrow> data = replicate (length data) (0 :: byte)"
  by (induction data) simp_all

lemma padded_all_zero:
  assumes "length data \<le> 16" and "list_all (\<lambda>b. b = 0) data"
  shows "replicate (16 - length data) 0 @ data = replicate 16 (0 :: byte)"
proof -
  have "replicate (16 - length data) 0 @ data =
      replicate (16 - length data) 0 @ replicate (length data) (0 :: byte)"
    using all_zero_replicate [OF assms(2)] by simp
  also have "\<dots> = replicate (16 - length data + length data) 0"
    by (simp only: replicate_add)
  finally show ?thesis using assms(1) by simp
qed

lemma StartTraceWithTimestamp_TraceID:
  assumes v: "validateRequest w ctx = Inr (sessionID, requestID, e)"
    and r: "requestID \<noteq> []"
  shows "started_TraceID (StartTraceWithTimestamp w ids ctx name t opts tags) =
     Some (if length (fst (DecodeString requestID)) \<le> 16 \<and>
              \<not> list_all (\<lambda>b. b = 0) (fst (DecodeString requestID))
           then replicate (16 - length (fst (DecodeString requestID))) 0 @
                  fst (DecodeString requestID)
           else (case tracer_delegate w of
                   None \<Rightarrow> replicate 16 0
                 | Some tp \<Rightarrow> new_TraceID ids))"
proof -
  let ?data = "fst (DecodeString requestID)"
  let ?tid = "fst (TraceIDFromHex (Sprintf_032x ?data))"
  let ?ctx = "ContextWithSpanContext ctx (WithTraceID (SpanContextFromContext ctx) ?tid)"
  let ?d = "tracer_delegate w"
  obtain ctx' spn where ts: "tracer_Start ?d ids ?ctx name (opts @ [WithTimestamp t]) = (ctx', spn)"
    by (cases "tracer_Start ?d ids ?ctx name (opts @ [WithTimestamp t])") auto
  have p: "sc_TraceID (ctx_SpanContext ?ctx) = ?tid"
    by (simp add: ContextWithSpanContext_def WithTraceID_def)
  have q: "snd (tracer_Start ?d ids ?ctx name (opts @ [WithTimestamp t])) = spn"
    by (simp only: ts snd_conv)
  have tid: "?tid = (if length ?data \<le> 16 then replicate (16 - length ?data) 0 @ ?data
                     else replicate 16 0)"
    by (rule TraceIDFromHex_Sprintf)
  have "sc_TraceID (span_context spn) =
      (case ?d of None \<Rightarrow> ?tid
       | Some tp \<Rightarrow> if TraceID_IsValid ?tid then ?tid else new_TraceID ids)"
    using tracer_Start_TraceID [of ?d ids ?ctx name "opts @ [WithTimestamp t]"]
    by (simp only: p q)
  also have "\<dots> =
      (if length ?data \<le> 16 \<and> \<not> list_all (\<lambda>b. b = 0) ?data
       then replicate (16 - length ?data) 0 @ ?data
       else (case ?d of None \<Rightarrow> replicate 16 0 | Some tp \<Rightarrow> new_TraceID ids))"
  proof (cases "length ?data \<le> 16")
    case True
    show ?thesis
    proof (cases "list_all (\<lambda>b. b = 0) ?data")
      case z: True
      have "?tid = replicate 16 0"
        using tid True padded_all_zero [OF True z] by simp
      then show ?thesis
        using True z by (simp add: not_IsValid_zero split: option.splits)
    next
      case nz: False
      have "?tid = replicate (16 - length ?data) 0 @ ?data" using tid True by simp
      then show ?thesis
        using True nz by (simp add: IsValid_padded split: option.splits)
    qed
  next
    case False
    then have "?tid = replicate 16 0" using tid by simp
    then show ?thesis
      using False by (simp add: not_IsValid_zero split: option.splits)
  qed
  finally have fin: "sc_TraceID (span_context spn) =
      (if length ?data \<le> 16 \<and> \<not> list_all (\<lambda>b. b = 0) ?data
       then replicate (16 - length ?data) 0 @ ?data
       else (case ?d of None \<Rightarrow> replicate 16 0 | Some tp \<Rightarrow> new_TraceID ids))" .
  have "started_TraceID (StartTraceWithTimestamp w ids ctx name t opts tags) =
      Some (sc_TraceID (span_context spn))"
    using r by (simp add: StartTraceWithTimestamp_def v Let_def ts started_TraceID_def)
  then show ?thesis by (simp only: fin)
qed

lemma BigEndian_value_zeros: "BigEndian_value (replicate k 0) = 0"
proof (induction k)
  case 0
  show ?case by (simp add: BigEndian_value_def)
next
  case (Suc k)
  have "replicate (Suc k) (0 :: byte) = replicate k 0 @ [0]"
    by (simp add: replicate_append_same)
  then have "BigEndian_value (replicate (Suc k) 0) =
      BigEndian_value (replicate k 0) * 256 ^ length [0 :: byte] + BigEndian_value [0]"
    by (simp only: BigEndian_value_append)
  then show ?case by (simp add: Suc BigEndian_value_def)
qed

lemma BigEndian_value_padded: "BigEndian_value (replicate k 0 @ data) = BigEndian_value data"
  by (simp add: BigEndian_value_append BigEndian_value_zeros)

lemma InterceptRequestWithContext_values:
  assumes "CHR ''/'' \<in> set header"
  shows "ctx_Value (InterceptRequestWithContext ctx header) =
     (ctx_Value ctx)
       (ContextKey SessionSecureID \<mapsto> StringVal (takeWhile (\<lambda>c. c \<noteq> CHR ''/'') header),
        ContextKey RequestID \<mapsto>
          StringVal (takeWhile (\<lambda>c. c \<noteq> CHR ''/'')
                       (tl (dropWhile (\<lambda>c. c \<noteq> CHR ''/'') header))))"
proof -
  have l: "\<not> length (Split header (CHR ''/'')) < 2"
    using assms Split_length_ge2 [of header "CHR ''/''"] by simp
  show ?thesis
    using Split_second [OF assms]
    by (simp add: InterceptRequestWithContext_def Let_def l WithValue_def Split_hd)
qed

lemma validateRequest_intercepted:
  assumes "state w \<noteq> stopped"
  shows "validateRequest w (InterceptRequestWithContext background (sid @ CHR ''/'' # rid)) =
     Inr (takeWhile (\<lambda>c. c \<noteq> CHR ''/'') (sid @ CHR ''/'' # rid),
          takeWhile (\<lambda>c. c \<noteq> CHR ''/'')
            (tl (dropWhile (\<lambda>c. c \<noteq> CHR ''/'') (sid @ CHR ''/'' # rid))),
          None)"
proof -
  have m: "CHR ''/'' \<in> set (sid @ CHR ''/'' # rid)" by simp
  show ?thesis
    using assms
    by (simp add: validateRequest_def read_string_def
        InterceptRequestWithContext_values [OF m] background_def
        RequestID_def SessionSecureID_def Scout_def)
qed

lemma DecodeString_QUJD: "DecodeString ''QUJD'' = ([65, 66, 67], None)"
  by (simp add: DecodeString_def Decode.simps decodeMap_def is_newline_def quantum_bytes_def)

lemma DecodeString_QUJD_star:
  "DecodeString ''QUJD*'' = ([65, 66, 67], Some (Error ''illegal base64 data''))"
  by (simp add: DecodeString_def Decode.simps decodeMap_def is_newline_def quantum_bytes_def)

lemma replicate_13_zero: "replicate 13 (0 :: byte) = [0, 0, 0, 0, 0, 0, 0, 0, 0, 0, 0, 0, 0]"
  by code_simp

lemma fresh_ids_differs:
  "new_TraceID fresh_ids \<noteq> [0, 0, 0, 0, 0, 0, 0, 0, 0, 0, 0, 0, 0, 65, 66, 67]"
  unfolding fresh_ids_def by code_simp

lemma state_init_world: "state init_world = idle"
  by (simp add: init_world_def SetOtelEndpoint_def)

lemma state_running_world: "state running_world = started"
  by (simp add: running_world_def state_StartWithContext)

lemma state_stopped_world: "state stopped_world = stopped"
  by (simp add: stopped_world_def state_shutdown state_running_world)

lemma running_world_delegate:
  "\<exists>tp. tracer_delegate running_world = Some tp \<and>
     tp_sampler tp = getSampler (\<lambda>f. 0) (conf running_world)"
  by (simp add: running_world_def StartWithContext_def StartOTLP_def init_world_def
      SetOtelEndpoint_def good_start_def HasPrefix_def OTLPDefaultEndpoint_def Let_def
      SetTracerProvider_def)

lemma running_world_rates: "samplingRateMap (conf running_world) = full_rates"
  by (simp add: running_world_def StartWithContext_def StartOTLP_def init_world_def
      SetOtelEndpoint_def good_start_def HasPrefix_def OTLPDefaultEndpoint_def Let_def
      SetTracerProvider_def WithSamplingRate_def full_rates_def)

lemma stopped_world_keeps:
  "tracer_delegate stopped_world = tracer_delegate running_world"
  "conf stopped_world = conf running_world"
  by (simp_all add: stopped_world_def shutdown_keeps)

lemma rate_full_rates_any: "rate full_rates k = 1"
  by (simp add: rate_def full_rates_def index_def)

lemma length_fresh_ids: "length (new_TraceID fresh_ids) = 16"
  by (simp add: fresh_ids_def)

lemma sampled_at_rate_one:
  assumes len: "length (sp_TraceID sp) = 16"
    and one: "rate (samplingRateMap c) (sp_Kind sp) = 1"
  shows "Decision (ShouldSample (getSampler impl c) sp) = RecordAndSample"
proof -
  have lo: "- 1 < rate (samplingRateMap c) (sp_Kind sp) * 2 ^ 63" by (simp add: one)
  have hi: "rate (samplingRateMap c) (sp_Kind sp) * 2 ^ 63 < 2 ^ 64" by (simp add: one)
  have f: "float_truncate (rate (samplingRateMap c) (sp_Kind sp) * 2 ^ 63) = 2 ^ 63"
    by (simp add: one float_truncate_def)
  have "sample_x (sp_TraceID sp) < 2 ^ 63" using sample_x_range [of "sp_TraceID sp"] by blast
  then show ?thesis using sampled_iff [OF len lo hi, of impl] by (simp only: f)
qed

lemma Tracestate_ShouldSample:
  "Tracestate (ShouldSample s sp) = sc_TraceState (ctx_SpanContext (sp_ParentContext sp))"
  by (simp add: ShouldSample_def Let_def SpanContextFromContext_def)

lemma sdk_Start_rate_one:
  assumes s: "tp_sampler tp = getSampler impl c"
    and one: "\<And>k. rate (samplingRateMap c) k = 1"
    and len: "length (new_TraceID ids) = 16"
    and inv: "\<not> TraceID_IsValid (sc_TraceID (ctx_SpanContext ctx))"
  shows "snd (sdk_Start tp ids ctx name opts) =
     \<lparr>span_name = name,
      span_context = \<lparr>sc_TraceID = new_TraceID ids, sc_SpanID = new_SpanID ids,
                       sc_TraceState = sc_TraceState (ctx_SpanContext ctx)\<rparr>,
      span_kind = ValidateSpanKind (cfg_SpanKind (NewSpanStartConfig opts)),
      span_start = cfg_Timestamp (NewSpanStartConfig opts), span_attributes = [],
      span_events = [], span_ended = False, span_recording = True\<rparr>"
proof -
  let ?sp = "\<lparr>sp_ParentContext = ctx, sp_TraceID = new_TraceID ids, sp_Name = name,
      sp_Kind = cfg_SpanKind (NewSpanStartConfig opts), sp_Attributes = []\<rparr>"
  have "Decision (ShouldSample (getSampler impl c) ?sp) = RecordAndSample"
    by (rule sampled_at_rate_one) (simp_all add: len one)
  then have d: "Decision (ShouldSample (tp_sampler tp) ?sp) \<noteq> Drop"
    by (simp add: s)
  have t: "Tracestate (ShouldSample (tp_sampler tp) ?sp) = sc_TraceState (ctx_SpanContext ctx)"
    by (simp add: Tracestate_ShouldSample)
  show ?thesis
    using inv d t by (simp add: sdk_Start_def Let_def SpanContextFromContext_def)
qed

lemma SetAttributes_keeps [simp]:
  "span_recording (SetAttributes spn kvs) = span_recording spn"
  "span_ended (SetAttributes spn kvs) = span_ended spn"
  "span_events (SetAttributes spn kvs) = span_events spn"
  by (simp_all add: SetAttributes_def)

lemma StartTraceWithTimestamp_stopped:
  assumes st: "state w = stopped"
    and d: "tracer_delegate w = Some tp"
    and s: "tp_sampler tp = getSampler impl c"
    and one: "\<And>k. rate (samplingRateMap c) k = 1"
    and len: "length (new_TraceID ids) = 16"
    and inv: "\<not> TraceID_IsValid (sc_TraceID (ctx_SpanContext ctx))"
  shows "\<exists>spn ctx'. StartTraceWithTimestamp w ids ctx name t opts tags = Inr (spn, ctx') \<and>
     span_recording spn \<and> \<not> span_ended spn \<and> span_events spn = [] \<and>
     sc_TraceID (span_context spn) = new_TraceID ids"
proof -
  let ?ctx = "ContextWithSpanContext ctx (SpanContextFromContext ctx)"
  let ?opts = "opts @ [WithTimestamp t]"
  obtain ctx' spn where ts: "tracer_Start (Some tp) ids ?ctx name ?opts = (ctx', spn)"
    by (cases "tracer_Start (Some tp) ids ?ctx name ?opts") auto
  have inv': "\<not> TraceID_IsValid (sc_TraceID (ctx_SpanContext ?ctx))"
    using inv by (simp add: ContextWithSpanContext_def SpanContextFromContext_def)
  have "spn = snd (sdk_Start tp ids ?ctx name ?opts)"
    using ts by (simp add: tracer_Start_def)
  then have spn: "span_recording spn" "\<not> span_ended spn" "span_events spn = []"
    "sc_TraceID (span_context spn) = new_TraceID ids"
    by (simp_all add: sdk_Start_rate_one [OF s one len inv'])
  have "StartTraceWithTimestamp w ids ctx name t opts tags =
      Inr (SetAttributes
             (SetAttributes spn
                [(ProjectIDAttribute, StringAttr (projectID (conf w))),
                 (SessionIDAttribute, StringAttr []), (RequestIDAttribute, StringAttr [])])
             tags, ctx')"
    by (simp add: StartTraceWithTimestamp_def validateRequest_stopped [OF st] Let_def d ts)
  then show ?thesis using spn by simp
qed

section \<open>Claims about recording\<close>

text \<open>
  What the two reads of one propagation key leave: the string under the typed
  \<open>contextKey\<close> form when there is one, else the string under the plain form, else the
  empty string.
\<close>

definition two_forms :: "Context \<Rightarrow> string \<Rightarrow> string" where
  "two_forms ctx key =
     (case ctx_Value ctx (ContextKey key) of
        Some (StringVal b) \<Rightarrow> b
      | _ \<Rightarrow> (case ctx_Value ctx (StringKey key) of Some (StringVal a) \<Rightarrow> a | _ \<Rightarrow> []))"

lemma validateRequest_reads:
  assumes "state w \<noteq> stopped"
    and "ctx_Value ctx (StringKey SessionSecureID) \<noteq> Some OtherVal"
    and "ctx_Value ctx (ContextKey SessionSecureID) \<noteq> Some OtherVal"
    and "ctx_Value ctx (StringKey RequestID) \<noteq> Some OtherVal"
    and "ctx_Value ctx (ContextKey RequestID) \<noteq> Some OtherVal"
  shows "validateRequest w ctx =
     Inr (two_forms ctx SessionSecureID, two_forms ctx RequestID, None)"
  using assms
  by (simp add: validateRequest_def read_string_def two_forms_def
      split: option.splits any.splits)

lemma validateRequest_session:
  assumes "state w \<noteq> stopped" and "validateRequest w ctx = Inr (sid, rid, e)"
  shows "sid = two_forms ctx SessionSecureID"
  using assms
  by (auto simp: validateRequest_def read_string_def two_forms_def
      split: option.splits any.splits sum.splits)

lemma validateRequest_request:
  assumes "state w \<noteq> stopped" and "validateRequest w ctx = Inr (sid, rid, e)"
  shows "rid = two_forms ctx RequestID"
  using assms
  by (auto simp: validateRequest_def read_string_def two_forms_def
      split: option.splits any.splits sum.splits)

text \<open>
  C9. When it reads the correlation values (the state is not \<open>stopped\<close>),
  \<open>validateRequest\<close> looks each propagation key up under its plain string form and then
  under its typed \<open>contextKey\<close> form. For each key on its own, whatever the context holds
  for the other key: with both forms present, the value under the typed form is the one
  returned; with the plain form alone, its value is returned. And whenever none of the
  four entries is a value other than a string, the call returns, for both keys, the typed
  form's string if there is one and else the plain form's.
\<close>

theorem validateRequest_typed_key_last:
  "(state w \<noteq> stopped \<and>
    ctx_Value ctx (StringKey SessionSecureID) = Some (StringVal s1) \<and>
    ctx_Value ctx (ContextKey SessionSecureID) = Some (StringVal s2) \<and>
    validateRequest w ctx = Inr (sid, rid, e) \<longrightarrow> sid = s2) \<and>
   (state w \<noteq> stopped \<and>
    ctx_Value ctx (StringKey RequestID) = Some (StringVal r1) \<and>
    ctx_Value ctx (ContextKey RequestID) = Some (StringVal r2) \<and>
    validateRequest w ctx = Inr (sid, rid, e) \<longrightarrow> rid = r2) \<and>
   (state w \<noteq> stopped \<and>
    ctx_Value ctx (StringKey SessionSecureID) = Some (StringVal s1) \<and>
    ctx_Value ctx (ContextKey SessionSecureID) = None \<and>
    validateRequest w ctx = Inr (sid, rid, e) \<longrightarrow> sid = s1) \<and>
   (state w \<noteq> stopped \<and>
    ctx_Value ctx (StringKey RequestID) = Some (StringVal r1) \<and>
    ctx_Value ctx (ContextKey RequestID) = None \<and>
    validateRequest w ctx = Inr (sid, rid, e) \<longrightarrow> rid = r1) \<and>
   (state w \<noteq> stopped \<and>
    ctx_Value ctx (StringKey SessionSecureID) \<noteq> Some OtherVal \<and>
    ctx_Value ctx (ContextKey SessionSecureID) \<noteq> Some OtherVal \<and>
    ctx_Value ctx (StringKey RequestID) \<noteq> Some OtherVal \<and>
    ctx_Value ctx (ContextKey RequestID) \<noteq> Some OtherVal \<longrightarrow>
      validateRequest w ctx =
        Inr (two_forms ctx SessionSecureID, two_forms ctx RequestID, None))"
proof -
  have a: "state w \<noteq> stopped \<Longrightarrow> validateRequest w ctx = Inr (sid, rid, e) \<Longrightarrow>
      sid = two_forms ctx SessionSecureID \<and> rid = two_forms ctx RequestID"
    using validateRequest_session [of w ctx sid rid e] validateRequest_request [of w ctx sid rid e]
    by blast
  have b: "ctx_Value ctx (StringKey k) = Some (StringVal p) \<Longrightarrow>
      ctx_Value ctx (ContextKey k) = Some (StringVal q) \<Longrightarrow> two_forms ctx k = q" for k p q
    by (simp add: two_forms_def)
  have c: "ctx_Value ctx (StringKey k) = Some (StringVal p) \<Longrightarrow>
      ctx_Value ctx (ContextKey k) = None \<Longrightarrow> two_forms ctx k = p" for k p
    by (simp add: two_forms_def)
  show ?thesis
    using a b [of SessionSecureID s1 s2] b [of RequestID r1 r2]
      c [of SessionSecureID s1] c [of RequestID r1]
      validateRequest_reads [of w ctx]
    by blast
qed

theorem validateRequest_typed_key_last_witness:
  "validateRequest init_world
     (WithValue (WithValue background
        (StringKey RequestID) (StringVal ''plain-request''))
        (ContextKey RequestID) (StringVal ''typed-request'')) =
   Inr ([], ''typed-request'', None)"
proof -
  let ?ctx = "WithValue (WithValue background
        (StringKey RequestID) (StringVal ''plain-request''))
        (ContextKey RequestID) (StringVal ''typed-request'')"
  have n: "RequestID \<noteq> SessionSecureID"
    by (simp add: RequestID_def SessionSecureID_def)
  have i: "state init_world \<noteq> stopped" by (simp add: state_init_world)
  have v: "ctx_Value ?ctx (StringKey SessionSecureID) = None"
    "ctx_Value ?ctx (ContextKey SessionSecureID) = None"
    "ctx_Value ?ctx (StringKey RequestID) = Some (StringVal ''plain-request'')"
    "ctx_Value ?ctx (ContextKey RequestID) = Some (StringVal ''typed-request'')"
    using n by (auto simp: WithValue_def background_def)
  have t: "two_forms ?ctx SessionSecureID = []"
    by (simp add: two_forms_def v)
  from validateRequest_typed_key_last
    [of init_world ?ctx _ _ "[]" "''typed-request''" None "''plain-request''" "''typed-request''"]
    i v
  have r: "validateRequest init_world ?ctx =
      Inr (two_forms ?ctx SessionSecureID, two_forms ?ctx RequestID, None)"
    by simp
  from validateRequest_typed_key_last
    [of init_world ?ctx _ _ "two_forms ?ctx SessionSecureID" "two_forms ?ctx RequestID" None
      "''plain-request''" "''typed-request''"]
    i v r
  have "two_forms ?ctx RequestID = ''typed-request''" by blast
  with r t show ?thesis by simp
qed

text \<open>
  C4 (as amended). The derivation of the trace identifier never looks at the error of the
  base64 decoding and uses no randomness. For every non-empty request id, the bytes that
  the decoding returns (all of them for a decodable request id, those decoded before the
  first fault for an undecodable one) are formatted as hex, left-padded with zeros to 32
  digits. When they are at most 16 bytes and not all zero, the span carries that
  identifier: the bytes zero-extended on the left to 16, the same number, a function of
  the request id alone. Otherwise (more than 16 bytes, all zero, or none) no identifier is
  derived and the tracer is handed the all-zero one: a tracer with a provider installed
  generates the identifier of the span, and with no provider installed (no start has
  succeeded) the span keeps the all-zero identifier.
\<close>

theorem derived_trace_identifier:
  assumes "validateRequest w ctx = Inr (sessionID, requestID, e)" and "requestID \<noteq> []"
  shows "started_TraceID (StartTraceWithTimestamp w ids ctx name t opts tags) =
     Some (if length (fst (DecodeString requestID)) \<le> 16 \<and>
              \<not> list_all (\<lambda>b. b = 0) (fst (DecodeString requestID))
           then replicate (16 - length (fst (DecodeString requestID))) 0 @
                  fst (DecodeString requestID)
           else (case tracer_delegate w of
                   None \<Rightarrow> replicate 16 0
                 | Some tp \<Rightarrow> new_TraceID ids)) \<and>
     BigEndian_value
       (replicate (16 - length (fst (DecodeString requestID))) 0 @ fst (DecodeString requestID)) =
     BigEndian_value (fst (DecodeString requestID))"
  using StartTraceWithTimestamp_TraceID [OF assms] BigEndian_value_padded
  by simp

theorem derived_trace_identifier_witness:
  "started_TraceID
     (StartTraceWithTimestamp running_world fresh_ids
        (InterceptRequestWithContext background ''session/QUJD'') ''op'' 0 [] []) =
   Some [0, 0, 0, 0, 0, 0, 0, 0, 0, 0, 0, 0, 0, 65, 66, 67]"
proof -
  have i: "state running_world \<noteq> stopped" by (simp add: state_running_world)
  have v: "validateRequest running_world
      (InterceptRequestWithContext background ''session/QUJD'') =
      Inr (''session'', ''QUJD'', None)"
    using validateRequest_intercepted [OF i, of "''session''" "''QUJD''"] by simp
  have n: "''QUJD'' \<noteq> []" by simp
  from derived_trace_identifier [OF v n, of fresh_ids "''op''" 0 "[]" "[]"]
  show ?thesis by (simp add: DecodeString_QUJD replicate_13_zero)
qed

text \<open>
  C4 as stated fails: the request id \<open>QUJD*\<close> is not decodable, and in a running system
  the span gets the identifier built from the three bytes decoded before the fault, not
  the one the tracer would generate.
\<close>

theorem partial_decode_counterexample:
  "snd (DecodeString ''QUJD*'') \<noteq> None \<and>
   state running_world = started \<and>
   started_TraceID
     (StartTraceWithTimestamp running_world fresh_ids
        (InterceptRequestWithContext background ''session/QUJD*'') ''op'' 0 [] []) =
   Some [0, 0, 0, 0, 0, 0, 0, 0, 0, 0, 0, 0, 0, 65, 66, 67] \<and>
   new_TraceID fresh_ids \<noteq> [0, 0, 0, 0, 0, 0, 0, 0, 0, 0, 0, 0, 0, 65, 66, 67]"
proof -
  have i: "state running_world \<noteq> stopped" by (simp add: state_running_world)
  have v: "validateRequest running_world
      (InterceptRequestWithContext background ''session/QUJD*'') =
      Inr (''session'', ''QUJD*'', None)"
    using validateRequest_intercepted [OF i, of "''session''" "''QUJD*''"] by simp
  have n: "''QUJD*'' \<noteq> []" by simp
  from StartTraceWithTimestamp_TraceID [OF v n, of fresh_ids "''op''" 0 "[]" "[]"]
  show ?thesis
    by (simp add: DecodeString_QUJD_star fresh_ids_differs replicate_13_zero
        state_running_world)
qed

text \<open>
  C3, evaluated on the code: after a start with sampling rate 1 and a stop, the state is
  \<open>stopped\<close> and \<open>validateRequest\<close> returns the worker-stopped error, and the recording
  calls go on all the same. \<open>StartTrace\<close> returns a recording span started by the tracer
  under a generated identifier; \<open>RecordMetric\<close> and \<open>RecordError\<close> each start such a span,
  add their event and end it.
\<close>

theorem recording_after_stop:
  "state stopped_world = stopped \<and>
   validateRequest stopped_world background =
     Inr ([], [], Some (Error consumeErrorWorkerStopped)) \<and>
   (\<exists>spn ctx'. StartTrace stopped_world fresh_ids 0 background ''op'' [] = Inr (spn, ctx') \<and>
      span_recording spn \<and>
      sc_TraceID (span_context spn) = new_TraceID fresh_ids) \<and>
   (\<exists>spn. RecordMetric stopped_world fresh_ids 0 background ''logins.successful'' 1 [] = Inr spn \<and>
      span_recording spn \<and> span_ended spn \<and>
      span_events spn =
        [(MetricEvent, [(MetricEventName, StringAttr ''logins.successful''),
                        (MetricEventValue, Float64Attr 1)])]) \<and>
   (\<exists>spn ctx'. RecordError stopped_world fresh_ids 0 ''stack'' background
        \<lparr>err_message = ''error here'', err_type = ''*errors.errorString'',
         err_url = None, err_stack = None\<rparr> [] = Inr (spn, ctx') \<and>
      span_recording spn \<and> span_ended spn \<and> length (span_events spn) = 1)"
proof -
  note s = state_stopped_world
  obtain tp where tp: "tracer_delegate stopped_world = Some tp"
    "tp_sampler tp = getSampler (\<lambda>f. 0) (conf running_world)"
    using running_world_delegate by (auto simp: stopped_world_keeps)
  have one: "\<And>k. rate (samplingRateMap (conf running_world)) k = 1"
    by (simp add: running_world_rates rate_full_rates_any)
  have inv: "\<not> TraceID_IsValid (sc_TraceID (ctx_SpanContext background))"
    by (simp add: background_def not_IsValid_zero)
  note start = StartTraceWithTimestamp_stopped [OF s tp one length_fresh_ids inv]
  have a: "validateRequest stopped_world background =
      Inr ([], [], Some (Error consumeErrorWorkerStopped))"
    by (rule validateRequest_stopped [OF s])
  have b: "\<exists>spn ctx'. StartTrace stopped_world fresh_ids 0 background ''op'' [] = Inr (spn, ctx') \<and>
      span_recording spn \<and> sc_TraceID (span_context spn) = new_TraceID fresh_ids"
    using start [of "''op''" 0 "[]" "[]"] by (auto simp: StartTrace_def)
  have c: "\<exists>spn. RecordMetric stopped_world fresh_ids 0 background ''logins.successful'' 1 [] =
        Inr spn \<and> span_recording spn \<and> span_ended spn \<and>
      span_events spn =
        [(MetricEvent, [(MetricEventName, StringAttr ''logins.successful''),
                        (MetricEventValue, Float64Attr 1)])]"
    using start [of "ScopedKey ''metric'' (Some ''-'')" 0 "[WithSpanKind SpanKindClient]" "[]"]
    by (auto simp: RecordMetric_def EndTrace_def AddEvent_def IsRecording_def)
  have d: "\<exists>spn ctx'. RecordError stopped_world fresh_ids 0 ''stack'' background
        \<lparr>err_message = ''error here'', err_type = ''*errors.errorString'',
         err_url = None, err_stack = None\<rparr> [] = Inr (spn, ctx') \<and>
      span_recording spn \<and> span_ended spn \<and> length (span_events spn) = 1"
    using start [of "ScopedKey ''ctx'' (Some ''-'')" 0 "[WithSpanKind SpanKindClient]" "[]"]
    by (auto simp: RecordError_def EndTrace_def AddEvent_def IsRecording_def
        RecordSpanError_def span_RecordError_def SetAttributes_def)
  show ?thesis using s a b c d by blast
qed

end
